theory Spec2Isabelle
  imports Main "HOL-Library.List_Lexorder" "HOL-Library.Char_ord"
begin

section \<open>Data model (workflows/models.py)\<close>

text \<open>
  Rows of the Django models. A primary key is a natural number. Two model instances are
  equal in Python (\<open>==\<close>, \<open>!=\<close>, \<open>in\<close>) when their primary keys are equal, so every
  comparison of instances below compares primary keys. A foreign key that the code
  dereferences holds the referenced row by value (no operation below changes a Workflow,
  State or Transition row); a foreign key that is only filtered on holds the primary key.
  Permission and Role belong to the external permissions package: a Permission is
  identified by its unique codename, a Role by its unique name.
\<close>

type_synonym Permission = string
type_synonym Role = string
type_synonym user = string

record State =
  s_id :: nat
  s_name :: string
  s_codename :: string
  s_workflow :: nat

record Transition =
  t_id :: nat
  t_name :: string
  t_codename :: string
  t_workflow :: nat
  t_destination :: "State option"
  t_condition :: string
  t_permission :: "Permission option"

record Workflow =
  w_id :: nat
  w_name :: string
  w_codename :: string
  w_initial_state :: "State option"

text \<open>
  A model instance of the host application: the engine uses only its content type
  (\<open>ContentType.objects.get_for_model(obj)\<close>) and its \<open>id\<close>.
\<close>

record obj =
  obj_ctype :: nat
  obj_id :: nat

record StateObjectRelation =
  sor_content_type :: nat
  sor_content_id :: nat
  sor_state :: State

record StateObjectHistory =
  soh_content_type :: nat
  soh_content_id :: nat
  soh_state :: State

record WorkflowObjectRelation =
  wor_content_type :: nat
  wor_content_id :: nat
  wor_workflow :: Workflow

record WorkflowModelRelation =
  wmr_workflow :: Workflow
  wmr_content_type :: nat

record WorkflowPermissionRelation =
  wpr_workflow :: nat
  wpr_permission :: Permission

record StatePermissionRelation =
  spr_state :: nat
  spr_permission :: Permission
  spr_role :: Role

text \<open>The four signals of workflows/signals.py, with the sender and the arguments sent.\<close>

datatype signal =
    Before_state_change obj "State option" "State option"
  | After_state_change obj "State option" "State option"
  | Before_transition obj "State option" Transition user
  | After_transition obj "State option" Transition user

text \<open>
  The database and the log of signals sent. \<open>State_transitions\<close> is the many-to-many
  table behind \<open>State.transitions\<close> (state pk, transition pk). \<open>ObjectPermission_objects\<close>
  is the table of the permissions package: (object, role, permission) means that the role
  holds the permission on the object. \<open>Model_objects\<close> holds the instances of the
  host's models (\<open>ctype.model_class().objects.all()\<close> is its part of one content type).
  The timestamps \<open>update_date\<close> are left out.
\<close>

record db =
  State_objects :: "State list"
  Transition_objects :: "Transition list"
  State_transitions :: "(nat \<times> nat) list"
  WorkflowObjectRelation_objects :: "WorkflowObjectRelation list"
  WorkflowModelRelation_objects :: "WorkflowModelRelation list"
  StateObjectRelation_objects :: "StateObjectRelation list"
  StateObjectHistory_objects :: "StateObjectHistory list"
  WorkflowPermissionRelation_objects :: "WorkflowPermissionRelation list"
  StatePermissionRelation_objects :: "StatePermissionRelation list"
  Role_objects :: "Role list"
  ObjectPermission_objects :: "(obj \<times> Role \<times> Permission) set"
  Model_objects :: "obj list"
  signals_sent :: "signal list"

text \<open>
  Python exceptions (all of them subclasses of \<open>Exception\<close>). \<open>IntegrityError\<close> stands
  for the failure of storing \<open>None\<close> in the non-null column \<open>StateObjectRelation.state\<close>
  (raised at assignment or at save, depending on the version of the ORM).
\<close>

datatype exc =
    DoesNotExist
  | MultipleObjectsReturned
  | IntegrityError
  | ValueError
  | AttributeError
  | OtherException string

text \<open>
  What the host supplies. \<open>has_permission_method\<close> is the outcome of the call
  \<open>obj.has_permission(user, codename)\<close>: the object has no such attribute (Python raises
  AttributeError at the lookup), or the method returns, or it raises while it runs.
  \<open>utils_has_permission\<close> is \<open>permissions.utils.has_permission\<close>, a function of the
  permission table. \<open>eval_condition\<close> is the outcome of
  \<open>bool(eval(transition.condition, {obj, user, transition}))\<close>.
  \<open>WORKFLOWS_ENABLE_STATE_HISTORY\<close> is the setting of workflows.conf.
  \<open>fk_lookup_checks_type\<close> says what the ORM does with a lookup on a foreign key whose
  value is an instance of another model: it raises ValueError (True), or it compares the
  column with the primary key of that instance (False).
\<close>

datatype own_check = NoSuchAttribute | Returns bool | Raises exc

datatype eval_result = Truthy | Falsy | EvalRaises exc

record host =
  has_permission_method :: "obj \<Rightarrow> user \<Rightarrow> Permission \<Rightarrow> own_check"
  utils_has_permission :: "(obj \<times> Role \<times> Permission) set \<Rightarrow> obj \<Rightarrow> user \<Rightarrow> Permission \<Rightarrow> bool"
  eval_condition :: "string \<Rightarrow> obj \<Rightarrow> user \<Rightarrow> Transition \<Rightarrow> eval_result"
  WORKFLOWS_ENABLE_STATE_HISTORY :: bool
  fk_lookup_checks_type :: bool

section \<open>The ORM and the permissions package\<close>

text \<open>\<open>Model.objects.get(...)\<close>: the one row that matches, or an exception.\<close>

definition objects_get :: "('a \<Rightarrow> bool) \<Rightarrow> 'a list \<Rightarrow> exc + 'a" where
  "objects_get P rows =
     (case filter P rows of
        [] \<Rightarrow> Inl DoesNotExist
      | [r] \<Rightarrow> Inr r
      | _ \<Rightarrow> Inl MultipleObjectsReturned)"

text \<open>
  \<open>signal.send(...)\<close>: the signal is added to the log. The handlers belong to the host
  and are not modelled.
\<close>

definition send :: "signal \<Rightarrow> db \<Rightarrow> db" where
  "send sig d = d\<lparr>signals_sent := signals_sent d @ [sig]\<rparr>"

text \<open>
  Modelled from the spec: the permissions package is not part of the repository; section 6
  of the specification gives its interface: \<open>grant_permission(entity, role, permission)\<close>,
  \<open>remove_permission(entity, roles, permissions)\<close> (bulk revoke) and \<open>reset(entity)\<close>
  (revoke everything).
\<close>

definition grant_permission ::
  "obj \<Rightarrow> Role \<Rightarrow> Permission \<Rightarrow> (obj \<times> Role \<times> Permission) set \<Rightarrow> (obj \<times> Role \<times> Permission) set" where
  "grant_permission ob role permission G = insert (ob, role, permission) G"

definition remove_permission ::
  "obj \<Rightarrow> Role list \<Rightarrow> Permission list \<Rightarrow> (obj \<times> Role \<times> Permission) set \<Rightarrow> (obj \<times> Role \<times> Permission) set" where
  "remove_permission ob roles perms G =
     {g \<in> G. \<not> (fst g = ob \<and> fst (snd g) \<in> set roles \<and> snd (snd g) \<in> set perms)}"

definition reset :: "obj \<Rightarrow> (obj \<times> Role \<times> Permission) set \<Rightarrow> (obj \<times> Role \<times> Permission) set" where
  "reset ob G = {g \<in> G. fst g \<noteq> ob}"

section \<open>workflows/utils.py and the methods of workflows/models.py\<close>

definition sor_of :: "obj \<Rightarrow> StateObjectRelation \<Rightarrow> bool" where
  "sor_of ob r \<longleftrightarrow> sor_content_type r = obj_ctype ob \<and> sor_content_id r = obj_id ob"

definition wor_of :: "obj \<Rightarrow> WorkflowObjectRelation \<Rightarrow> bool" where
  "wor_of ob r \<longleftrightarrow> wor_content_id r = obj_id ob \<and> wor_content_type r = obj_ctype ob"

definition get_workflow_for_object :: "db \<Rightarrow> obj \<Rightarrow> exc + Workflow option" where
  "get_workflow_for_object d ob =
     (case objects_get (wor_of ob) (WorkflowObjectRelation_objects d) of
        Inr wor \<Rightarrow> Inr (Some (wor_workflow wor))
      | Inl e \<Rightarrow> if e = DoesNotExist then Inr None else Inl e)"

definition get_workflow_for_model :: "db \<Rightarrow> nat \<Rightarrow> exc + Workflow option" where
  "get_workflow_for_model d ctype =
     (case objects_get (\<lambda>r. wmr_content_type r = ctype) (WorkflowModelRelation_objects d) of
        Inr wor \<Rightarrow> Inr (Some (wmr_workflow wor))
      | Inl e \<Rightarrow> if e = DoesNotExist then Inr None else Inl e)"

definition get_workflow :: "db \<Rightarrow> obj \<Rightarrow> exc + Workflow option" where
  "get_workflow d ob =
     (case get_workflow_for_object d ob of
        Inl e \<Rightarrow> Inl e
      | Inr (Some workflow) \<Rightarrow> Inr (Some workflow)
      | Inr None \<Rightarrow> get_workflow_for_model d (obj_ctype ob))"

definition get_state :: "db \<Rightarrow> obj \<Rightarrow> exc + State option" where
  "get_state d ob =
     (case objects_get (sor_of ob) (StateObjectRelation_objects d) of
        Inr sor \<Rightarrow> Inr (Some (sor_state sor))
      | Inl e \<Rightarrow> if e = DoesNotExist then Inr None else Inl e)"

text \<open>
  \<open>self.states.all()\<close>: the states of the workflow, in the order of \<open>State.Meta.ordering\<close>,
  that is by name. The database decides the order of rows with the same name; here they
  stay in table order.
\<close>

definition states_all :: "db \<Rightarrow> Workflow \<Rightarrow> State list" where
  "states_all d self = sort_key s_name (filter (\<lambda>s. s_workflow s = w_id self) (State_objects d))"

definition get_initial_state :: "db \<Rightarrow> Workflow \<Rightarrow> State option" where
  "get_initial_state d self =
     (case w_initial_state self of
        Some s \<Rightarrow> Some s
      | None \<Rightarrow> (case states_all d self of [] \<Rightarrow> None | s # _ \<Rightarrow> Some s))"

definition update_permissions :: "host \<Rightarrow> db \<Rightarrow> obj \<Rightarrow> (exc + unit) \<times> db" where
  "update_permissions h d ob =
     (case get_workflow d ob of
        Inl e \<Rightarrow> (Inl e, d)
      | Inr workflow \<Rightarrow>
          (case get_state d ob of
             Inl e \<Rightarrow> (Inl e, d)
           | Inr state \<Rightarrow>
               let perms = map wpr_permission
                     (filter (\<lambda>wpr. Some (wpr_workflow wpr) = map_option w_id workflow)
                        (WorkflowPermissionRelation_objects d));
                   G1 = remove_permission ob (Role_objects d) perms (ObjectPermission_objects d);
                   G2 = foldl (\<lambda>G spr. grant_permission ob (spr_role spr) (spr_permission spr) G) G1
                     (filter (\<lambda>spr. Some (spr_state spr) = map_option s_id state)
                        (StatePermissionRelation_objects d))
               in (Inr (), d\<lparr>ObjectPermission_objects := G2\<rparr>)))"

text \<open>
  \<open>set_state(obj, state)\<close>. The argument is a State instance, a codename or \<open>None\<close>.
  \<open>sor.save()\<close> rewrites the row that \<open>get\<close> returned, which is the only row of the object.
\<close>

datatype state_arg = StateInstance State | StateCodename string | StateNone

definition resolve_state :: "db \<Rightarrow> state_arg \<Rightarrow> exc + State option" where
  "resolve_state d state =
     (case state of
        StateCodename c \<Rightarrow>
          (case objects_get (\<lambda>s. s_codename s = c) (State_objects d) of
             Inl e \<Rightarrow> Inl e
           | Inr s \<Rightarrow> Inr (Some s))
      | StateInstance s \<Rightarrow> Inr (Some s)
      | StateNone \<Rightarrow> Inr None)"

definition create_history :: "host \<Rightarrow> obj \<Rightarrow> State \<Rightarrow> db \<Rightarrow> db" where
  "create_history h ob s d =
     (if WORKFLOWS_ENABLE_STATE_HISTORY h
      then d\<lparr>StateObjectHistory_objects := StateObjectHistory_objects d @
             [\<lparr>soh_content_type = obj_ctype ob, soh_content_id = obj_id ob, soh_state = s\<rparr>]\<rparr>
      else d)"

definition set_state :: "host \<Rightarrow> db \<Rightarrow> obj \<Rightarrow> state_arg \<Rightarrow> (exc + unit) \<times> db" where
  "set_state h d ob state_in =
     (case resolve_state d state_in of
        Inl e \<Rightarrow> (Inl e, d)
      | Inr state \<Rightarrow>
          (case objects_get (sor_of ob) (StateObjectRelation_objects d) of
             Inr sor \<Rightarrow>
               let initial_state = sor_state sor;
                   d1 = send (Before_state_change ob (Some initial_state) state) d
               in (case state of
                     None \<Rightarrow> (Inl IntegrityError, d1)
                   | Some s \<Rightarrow>
                       let d2 = d1\<lparr>StateObjectRelation_objects :=
                                  map (\<lambda>r. if sor_of ob r then r\<lparr>sor_state := s\<rparr> else r)
                                    (StateObjectRelation_objects d1)\<rparr>;
                           d3 = create_history h ob s d2;
                           d4 = send (After_state_change ob (Some initial_state) state) d3
                       in update_permissions h d4 ob)
           | Inl e \<Rightarrow>
               if e = DoesNotExist then
                 let d1 = send (Before_state_change ob None state) d
                 in (case state of
                       None \<Rightarrow> (Inl IntegrityError, d1)
                     | Some s \<Rightarrow>
                         let d2 = d1\<lparr>StateObjectRelation_objects := StateObjectRelation_objects d1 @
                                    [\<lparr>sor_content_type = obj_ctype ob, sor_content_id = obj_id ob,
                                      sor_state = s\<rparr>]\<rparr>;
                             d3 = create_history h ob s d2;
                             d4 = send (After_state_change ob None state) d3
                         in update_permissions h d4 ob)
               else (Inl e, d)))"

definition state_arg_of :: "State option \<Rightarrow> state_arg" where
  "state_arg_of s = (case s of None \<Rightarrow> StateNone | Some x \<Rightarrow> StateInstance x)"

definition set_initial_state :: "host \<Rightarrow> db \<Rightarrow> obj \<Rightarrow> (exc + unit) \<times> db" where
  "set_initial_state h d ob =
     (case get_workflow d ob of
        Inl e \<Rightarrow> (Inl e, d)
      | Inr None \<Rightarrow> (Inr (), d)
      | Inr (Some workflow) \<Rightarrow> set_state h d ob (state_arg_of (get_initial_state d workflow)))"

text \<open>\<open>Workflow.set_to_model\<close>, \<open>Workflow.set_to_object\<close>, \<open>Workflow.set_to\<close> and \<open>set_workflow\<close>.\<close>

definition set_to_model :: "db \<Rightarrow> Workflow \<Rightarrow> nat \<Rightarrow> (exc + unit) \<times> db" where
  "set_to_model d self ctype =
     (case objects_get (\<lambda>r. wmr_content_type r = ctype) (WorkflowModelRelation_objects d) of
        Inr wor \<Rightarrow>
          (Inr (), d\<lparr>WorkflowModelRelation_objects :=
             map (\<lambda>r. if wmr_content_type r = ctype then r\<lparr>wmr_workflow := self\<rparr> else r)
               (WorkflowModelRelation_objects d)\<rparr>)
      | Inl e \<Rightarrow>
          if e = DoesNotExist then
            (Inr (), d\<lparr>WorkflowModelRelation_objects := WorkflowModelRelation_objects d @
               [\<lparr>wmr_workflow = self, wmr_content_type = ctype\<rparr>]\<rparr>)
          else (Inl e, d))"

definition set_to_object :: "host \<Rightarrow> db \<Rightarrow> Workflow \<Rightarrow> obj \<Rightarrow> (exc + unit) \<times> db" where
  "set_to_object h d self ob =
     (case objects_get (wor_of ob) (WorkflowObjectRelation_objects d) of
        Inr wor \<Rightarrow>
          if w_id (wor_workflow wor) \<noteq> w_id self then
            set_state h
              (d\<lparr>WorkflowObjectRelation_objects :=
                   map (\<lambda>r. if wor_of ob r then r\<lparr>wor_workflow := self\<rparr> else r)
                     (WorkflowObjectRelation_objects d)\<rparr>)
              ob (state_arg_of (w_initial_state self))
          else (Inr (), d)
      | Inl e \<Rightarrow>
          if e = DoesNotExist then
            set_state h
              (d\<lparr>WorkflowObjectRelation_objects := WorkflowObjectRelation_objects d @
                   [\<lparr>wor_content_type = obj_ctype ob, wor_content_id = obj_id ob,
                     wor_workflow = self\<rparr>]\<rparr>)
              ob (state_arg_of (w_initial_state self))
          else (Inl e, d))"

datatype ctype_or_obj = ContentType nat | Instance obj

definition set_to :: "host \<Rightarrow> db \<Rightarrow> Workflow \<Rightarrow> ctype_or_obj \<Rightarrow> (exc + unit) \<times> db" where
  "set_to h d self x =
     (case x of ContentType ctype \<Rightarrow> set_to_model d self ctype
              | Instance ob \<Rightarrow> set_to_object h d self ob)"

definition set_workflow :: "host \<Rightarrow> db \<Rightarrow> ctype_or_obj \<Rightarrow> Workflow \<Rightarrow> (exc + unit) \<times> db" where
  "set_workflow h d x workflow = set_to h d workflow x"

text \<open>
  \<open>State.get_allowed_transitions\<close>. The nested function \<open>_condition_met\<close> catches every
  exception of the evaluation, so it always returns a truth value.
\<close>

definition condition_met :: "host \<Rightarrow> obj \<Rightarrow> user \<Rightarrow> Transition \<Rightarrow> bool" where
  "condition_met h ob usr transition =
     (if t_condition transition \<noteq> [] then
        (case eval_condition h (t_condition transition) ob usr transition of
           Truthy \<Rightarrow> True
         | Falsy \<Rightarrow> False
         | EvalRaises e \<Rightarrow> False)
      else True)"

text \<open>\<open>self.transitions.all()\<close>: the rows of Transition joined with the many-to-many table.\<close>

definition transitions_all :: "db \<Rightarrow> State \<Rightarrow> Transition list" where
  "transitions_all d self =
     filter (\<lambda>t. (s_id self, t_id t) \<in> set (State_transitions d)) (Transition_objects d)"

text \<open>
  The loop over the transitions; \<open>transitions\<close> is the list built so far. The
  \<open>except AttributeError\<close> clause covers the whole call \<open>obj.has_permission(...)\<close>: the
  lookup of the attribute and the run of the method.
\<close>

fun allowed_loop ::
  "host \<Rightarrow> db \<Rightarrow> obj \<Rightarrow> user \<Rightarrow> Transition list \<Rightarrow> Transition list \<Rightarrow> exc + Transition list" where
  "allowed_loop h d ob usr [] transitions = Inr transitions"
| "allowed_loop h d ob usr (transition # rest) transitions =
     (case t_permission transition of
        None \<Rightarrow>
          allowed_loop h d ob usr rest
            (if condition_met h ob usr transition then transitions @ [transition] else transitions)
      | Some permission \<Rightarrow>
          (case has_permission_method h ob usr permission of
             Returns b \<Rightarrow>
               allowed_loop h d ob usr rest
                 (if b \<and> condition_met h ob usr transition
                  then transitions @ [transition] else transitions)
           | NoSuchAttribute \<Rightarrow>
               allowed_loop h d ob usr rest
                 (if utils_has_permission h (ObjectPermission_objects d) ob usr permission
                     \<and> condition_met h ob usr transition
                  then transitions @ [transition] else transitions)
           | Raises e \<Rightarrow>
               if e = AttributeError then
                 allowed_loop h d ob usr rest
                   (if utils_has_permission h (ObjectPermission_objects d) ob usr permission
                       \<and> condition_met h ob usr transition
                    then transitions @ [transition] else transitions)
               else Inl e))"

definition State_get_allowed_transitions ::
  "host \<Rightarrow> db \<Rightarrow> State \<Rightarrow> obj \<Rightarrow> user \<Rightarrow> exc + Transition list" where
  "State_get_allowed_transitions h d self ob usr =
     allowed_loop h d ob usr (transitions_all d self) []"

definition get_allowed_transitions :: "host \<Rightarrow> db \<Rightarrow> obj \<Rightarrow> user \<Rightarrow> exc + Transition list" where
  "get_allowed_transitions h d ob usr =
     (case get_state d ob of
        Inl e \<Rightarrow> Inl e
      | Inr None \<Rightarrow> Inr []
      | Inr (Some state) \<Rightarrow> State_get_allowed_transitions h d state ob usr)"

text \<open>
  \<open>do_transition(obj, transition, user)\<close>; the transition is an instance or a codename.
  \<open>transition in transitions\<close> and \<open>transition.destination != initial_state\<close> compare
  primary keys.
\<close>

datatype transition_arg = TransitionInstance Transition | TransitionCodename string

definition resolve_transition :: "db \<Rightarrow> transition_arg \<Rightarrow> exc + Transition" where
  "resolve_transition d transition =
     (case transition of
        TransitionInstance t \<Rightarrow> Inr t
      | TransitionCodename c \<Rightarrow> objects_get (\<lambda>t. t_codename t = c) (Transition_objects d))"

definition transition_in :: "Transition \<Rightarrow> Transition list \<Rightarrow> bool" where
  "transition_in t ts \<longleftrightarrow> t_id t \<in> set (map t_id ts)"

definition do_transition ::
  "host \<Rightarrow> db \<Rightarrow> obj \<Rightarrow> transition_arg \<Rightarrow> user \<Rightarrow> (exc + bool) \<times> db" where
  "do_transition h d ob transition_in_arg usr =
     (case resolve_transition d transition_in_arg of
        Inl e \<Rightarrow> if e = DoesNotExist then (Inr False, d) else (Inl e, d)
      | Inr transition \<Rightarrow>
          (case get_allowed_transitions h d ob usr of
             Inl e \<Rightarrow> (Inl e, d)
           | Inr transitions \<Rightarrow>
               if transition_in transition transitions then
                 (case get_state d ob of
                    Inl e \<Rightarrow> (Inl e, d)
                  | Inr initial_state \<Rightarrow>
                      let d1 = send (Before_transition ob initial_state transition usr) d;
                          r = (case t_destination transition of
                                 None \<Rightarrow> (Inr (), d1)
                               | Some dest \<Rightarrow>
                                   if Some (s_id dest) \<noteq> map_option s_id initial_state
                                   then set_state h d1 ob (StateInstance dest)
                                   else (Inr (), d1))
                      in (case fst r of
                            Inl e \<Rightarrow> (Inl e, snd r)
                          | Inr u \<Rightarrow>
                              (Inr True,
                               send (After_transition ob initial_state transition usr) (snd r))))
               else (Inr False, d)))"

text \<open>
  \<open>remove_workflow_from_object\<close>. The lookup is written
  \<open>WorkflowObjectRelation.objects.get(content_type=obj)\<close>: it gives the object itself as
  the value of the foreign key \<open>content_type\<close>. What the ORM does with it is the
  parameter \<open>fk_lookup_checks_type\<close> of the host. \<open>wor.delete()\<close> deletes the row found,
  the only row the lookup matches.
\<close>

definition remove_workflow_from_object :: "host \<Rightarrow> db \<Rightarrow> obj \<Rightarrow> (exc + unit) \<times> db" where
  "remove_workflow_from_object h d ob =
     (case (if fk_lookup_checks_type h then Inl ValueError
            else objects_get (\<lambda>r. wor_content_type r = obj_id ob)
                   (WorkflowObjectRelation_objects d)) of
        Inr wor \<Rightarrow>
          set_initial_state h
            (d\<lparr>WorkflowObjectRelation_objects :=
                 filter (\<lambda>r. wor_content_type r \<noteq> obj_id ob) (WorkflowObjectRelation_objects d),
               ObjectPermission_objects := reset ob (ObjectPermission_objects d)\<rparr>) ob
      | Inl e \<Rightarrow>
          if e = DoesNotExist then
            set_initial_state h
              (d\<lparr>ObjectPermission_objects := reset ob (ObjectPermission_objects d)\<rparr>) ob
          else (Inl e, d))"

text \<open>
  \<open>Workflow.get_objects\<close> and \<open>get_objects_for_workflow\<close>. \<open>wor.content\<close> is the
  instance the generic foreign key points to, or \<open>None\<close> when there is none, so the
  list holds optional instances. \<open>get_objects_for_workflow\<close> is called with the result of
  \<open>get_workflow_for_model\<close>: for \<open>None\<close> it looks a workflow up by the name \<open>None\<close>,
  finds none and returns the empty list.
\<close>

fun objs_of_ctype :: "db \<Rightarrow> Workflow \<Rightarrow> obj list \<Rightarrow> obj option list \<Rightarrow> exc + obj option list" where
  "objs_of_ctype d self [] objs = Inr objs"
| "objs_of_ctype d self (ob # rest) objs =
     (case get_workflow d ob of
        Inl e \<Rightarrow> Inl e
      | Inr w \<Rightarrow>
          objs_of_ctype d self rest
            (if map_option w_id w = Some (w_id self) then objs @ [Some ob] else objs))"

fun objs_of_wmrs ::
  "db \<Rightarrow> Workflow \<Rightarrow> WorkflowModelRelation list \<Rightarrow> obj option list \<Rightarrow> exc + obj option list" where
  "objs_of_wmrs d self [] objs = Inr objs"
| "objs_of_wmrs d self (wmr # rest) objs =
     (case objs_of_ctype d self
             (filter (\<lambda>ob. obj_ctype ob = wmr_content_type wmr) (Model_objects d)) objs of
        Inl e \<Rightarrow> Inl e
      | Inr objs' \<Rightarrow> objs_of_wmrs d self rest objs')"

definition wor_content :: "db \<Rightarrow> WorkflowObjectRelation \<Rightarrow> obj option" where
  "wor_content d wor =
     (let ob = \<lparr>obj_ctype = wor_content_type wor, obj_id = wor_content_id wor\<rparr>
      in if ob \<in> set (Model_objects d) then Some ob else None)"

fun objs_of_wors :: "db \<Rightarrow> WorkflowObjectRelation list \<Rightarrow> obj option list \<Rightarrow> obj option list" where
  "objs_of_wors d [] objs = objs"
| "objs_of_wors d (wor # rest) objs =
     objs_of_wors d rest
       (if wor_content d wor \<notin> set objs then objs @ [wor_content d wor] else objs)"

definition get_objects :: "db \<Rightarrow> Workflow \<Rightarrow> exc + obj option list" where
  "get_objects d self =
     (case objs_of_wmrs d self
             (filter (\<lambda>wmr. w_id (wmr_workflow wmr) = w_id self) (WorkflowModelRelation_objects d))
             [] of
        Inl e \<Rightarrow> Inl e
      | Inr objs \<Rightarrow>
          Inr (objs_of_wors d
                 (filter (\<lambda>wor. w_id (wor_workflow wor) = w_id self)
                    (WorkflowObjectRelation_objects d))
                 objs))"

definition get_objects_for_workflow :: "db \<Rightarrow> Workflow option \<Rightarrow> exc + obj option list" where
  "get_objects_for_workflow d workflow =
     (case workflow of None \<Rightarrow> Inr [] | Some w \<Rightarrow> get_objects d w)"

text \<open>
  \<open>remove_workflow_from_model\<close>: the loop over the objects of the workflow, then the
  deletion of the relation of the content type. \<open>get_for_model(None)\<close> raises
  AttributeError.
\<close>

fun remove_loop :: "nat \<Rightarrow> obj option list \<Rightarrow> db \<Rightarrow> (exc + unit) \<times> db" where
  "remove_loop ctype [] d = (Inr (), d)"
| "remove_loop ctype (None # rest) d = (Inl AttributeError, d)"
| "remove_loop ctype (Some ob # rest) d =
     (if ctype \<noteq> obj_ctype ob then remove_loop ctype rest d
      else
        (case objects_get (sor_of ob) (StateObjectRelation_objects d) of
           Inr sor \<Rightarrow>
             remove_loop ctype rest
               (d\<lparr>StateObjectRelation_objects :=
                    filter (\<lambda>r. \<not> sor_of ob r) (StateObjectRelation_objects d),
                  ObjectPermission_objects := reset ob (ObjectPermission_objects d)\<rparr>)
         | Inl e \<Rightarrow>
             if e = DoesNotExist then
               remove_loop ctype rest
                 (d\<lparr>ObjectPermission_objects := reset ob (ObjectPermission_objects d)\<rparr>)
             else (Inl e, d)))"

definition remove_workflow_from_model :: "db \<Rightarrow> nat \<Rightarrow> (exc + unit) \<times> db" where
  "remove_workflow_from_model d ctype =
     (case get_workflow_for_model d ctype of
        Inl e \<Rightarrow> (Inl e, d)
      | Inr workflow \<Rightarrow>
          (case get_objects_for_workflow d workflow of
             Inl e \<Rightarrow> (Inl e, d)
           | Inr objs \<Rightarrow>
               (case remove_loop ctype objs d of
                  (Inl e, d1) \<Rightarrow> (Inl e, d1)
                | (Inr u, d1) \<Rightarrow>
                    (case objects_get (\<lambda>r. wmr_content_type r = ctype)
                            (WorkflowModelRelation_objects d1) of
                       Inr wmr \<Rightarrow>
                         (Inr (), d1\<lparr>WorkflowModelRelation_objects :=
                            filter (\<lambda>r. wmr_content_type r \<noteq> ctype)
                              (WorkflowModelRelation_objects d1)\<rparr>)
                     | Inl e \<Rightarrow> if e = DoesNotExist then (Inr (), d1) else (Inl e, d1)))))"

definition remove_workflow :: "host \<Rightarrow> db \<Rightarrow> ctype_or_obj \<Rightarrow> (exc + unit) \<times> db" where
  "remove_workflow h d x =
     (case x of ContentType ctype \<Rightarrow> remove_workflow_from_model d ctype
              | Instance ob \<Rightarrow> remove_workflow_from_object h d ob)"

section \<open>Notions of the specification\<close>

text \<open>The permissions a workflow is responsible for (its WorkflowPermissionRelation rows).\<close>

definition workflow_permissions :: "db \<Rightarrow> Workflow \<Rightarrow> Permission set" where
  "workflow_permissions d w =
     set (map wpr_permission
       (filter (\<lambda>wpr. wpr_workflow wpr = w_id w) (WorkflowPermissionRelation_objects d)))"

text \<open>The grants configured for a state (its StatePermissionRelation rows), on an object.\<close>

definition state_grants :: "db \<Rightarrow> State \<Rightarrow> obj \<Rightarrow> (obj \<times> Role \<times> Permission) set" where
  "state_grants d s ob =
     set (map (\<lambda>spr. (ob, spr_role spr, spr_permission spr))
       (filter (\<lambda>spr. spr_state spr = s_id s) (StatePermissionRelation_objects d)))"

text \<open>The same for the workflow and the state an object may or may not have.\<close>

definition managed :: "db \<Rightarrow> Workflow option \<Rightarrow> Permission set" where
  "managed d w = (case w of None \<Rightarrow> {} | Some x \<Rightarrow> workflow_permissions d x)"

definition configured :: "db \<Rightarrow> State option \<Rightarrow> obj \<Rightarrow> (obj \<times> Role \<times> Permission) set" where
  "configured d s ob = (case s of None \<Rightarrow> {} | Some x \<Rightarrow> state_grants d x ob)"

text \<open>The grants an object holds.\<close>

definition grants_on :: "db \<Rightarrow> obj \<Rightarrow> (obj \<times> Role \<times> Permission) set" where
  "grants_on d ob = {g \<in> ObjectPermission_objects d. fst g = ob}"


text \<open>At most one StateObjectRelation per object.\<close>

definition sor_unique :: "db \<Rightarrow> bool" where
  "sor_unique d \<longleftrightarrow>
     distinct (map (\<lambda>r. (sor_content_type r, sor_content_id r)) (StateObjectRelation_objects d))"

text \<open>
  The permission check of a transition as the specification words it: the object's own
  \<open>has_permission\<close> when the object exposes one, otherwise the default check of the
  permissions package. An own check that raises has not passed.
\<close>

definition spec_check_passes :: "host \<Rightarrow> db \<Rightarrow> obj \<Rightarrow> user \<Rightarrow> Permission \<Rightarrow> bool" where
  "spec_check_passes h d ob usr permission =
     (case has_permission_method h ob usr permission of
        NoSuchAttribute \<Rightarrow> utils_has_permission h (ObjectPermission_objects d) ob usr permission
      | Returns b \<Rightarrow> b
      | Raises e \<Rightarrow> False)"

text \<open>
  What a run of \<open>set_state\<close> that meets no error has done: \<open>s0\<close> is the state the
  object had and \<open>w\<close> its workflow, \<open>s\<close> the new state, \<open>d'\<close> the database left.
\<close>

definition set_state_post :: "db \<Rightarrow> obj \<Rightarrow> State option \<Rightarrow> Workflow option \<Rightarrow> State \<Rightarrow> db \<Rightarrow> bool" where
  "set_state_post d ob s0 w s d' \<longleftrightarrow>
     get_state d' ob = Inr (Some s) \<and>
     get_workflow d' ob = Inr w \<and>
     signals_sent d' = signals_sent d @
       [Before_state_change ob s0 (Some s), After_state_change ob s0 (Some s)] \<and>
     ObjectPermission_objects d' =
       {g \<in> ObjectPermission_objects d.
          \<not> (fst g = ob \<and> fst (snd g) \<in> set (Role_objects d) \<and> snd (snd g) \<in> managed d w)}
       \<union> configured d (Some s) ob \<and>
     map (\<lambda>r. (sor_content_type r, sor_content_id r)) (StateObjectRelation_objects d') =
       (case s0 of
          Some x \<Rightarrow> map (\<lambda>r. (sor_content_type r, sor_content_id r)) (StateObjectRelation_objects d)
        | None \<Rightarrow> map (\<lambda>r. (sor_content_type r, sor_content_id r)) (StateObjectRelation_objects d)
                   @ [(obj_ctype ob, obj_id ob)]) \<and>
     WorkflowObjectRelation_objects d' = WorkflowObjectRelation_objects d \<and>
     WorkflowModelRelation_objects d' = WorkflowModelRelation_objects d \<and>
     State_objects d' = State_objects d \<and>
     StatePermissionRelation_objects d' = StatePermissionRelation_objects d \<and>
     WorkflowPermissionRelation_objects d' = WorkflowPermissionRelation_objects d \<and>
     Role_objects d' = Role_objects d"

text \<open>
  One round of the loop of \<open>State.get_allowed_transitions\<close>, when it raises nothing:
  whether the transition is appended. \<open>own_check_error\<close> is the exception a round
  raises, if any.
\<close>

definition appended :: "host \<Rightarrow> db \<Rightarrow> obj \<Rightarrow> user \<Rightarrow> Transition \<Rightarrow> bool" where
  "appended h d ob usr t \<longleftrightarrow>
     (case t_permission t of
        None \<Rightarrow> True
      | Some p \<Rightarrow>
          (case has_permission_method h ob usr p of
             Returns b \<Rightarrow> b
           | NoSuchAttribute \<Rightarrow> utils_has_permission h (ObjectPermission_objects d) ob usr p
           | Raises e \<Rightarrow> utils_has_permission h (ObjectPermission_objects d) ob usr p))
     \<and> condition_met h ob usr t"

definition own_check_error :: "host \<Rightarrow> obj \<Rightarrow> user \<Rightarrow> Transition \<Rightarrow> exc option" where
  "own_check_error h ob usr t =
     (case t_permission t of
        None \<Rightarrow> None
      | Some p \<Rightarrow>
          (case has_permission_method h ob usr p of
             Raises e \<Rightarrow> if e = AttributeError then None else Some e
           | _ \<Rightarrow> None))"

section \<open>An example configuration\<close>

text \<open>
  The workflow ``review'' of the specification's scenario, with the states draft (initial)
  and published, and a second workflow ``plain'' that has one state and no explicit
  initial state.
\<close>

definition draft :: State where
  "draft = \<lparr>s_id = 1, s_name = ''Draft'', s_codename = ''draft'', s_workflow = 1\<rparr>"

definition published :: State where
  "published = \<lparr>s_id = 2, s_name = ''Published'', s_codename = ''published'', s_workflow = 1\<rparr>"

definition opened :: State where
  "opened = \<lparr>s_id = 3, s_name = ''Open'', s_codename = ''open'', s_workflow = 2\<rparr>"

definition review :: Workflow where
  "review = \<lparr>w_id = 1, w_name = ''Review'', w_codename = ''review'', w_initial_state = Some draft\<rparr>"

definition plain :: Workflow where
  "plain = \<lparr>w_id = 2, w_name = ''Plain'', w_codename = ''plain'', w_initial_state = None\<rparr>"

definition publish :: Transition where
  "publish = \<lparr>t_id = 1, t_name = ''Publish'', t_codename = ''publish'', t_workflow = 1,
     t_destination = Some published, t_condition = [], t_permission = Some ''can_publish''\<rparr>"

definition comment :: Transition where
  "comment = \<lparr>t_id = 2, t_name = ''Comment'', t_codename = ''comment'', t_workflow = 1,
     t_destination = None, t_condition = [], t_permission = None\<rparr>"

definition retract :: Transition where
  "retract = \<lparr>t_id = 3, t_name = ''Retract'', t_codename = ''retract'', t_workflow = 1,
     t_destination = Some draft, t_condition = ''obj.locked'', t_permission = None\<rparr>"

definition doc :: obj where
  "doc = \<lparr>obj_ctype = 1, obj_id = 2\<rparr>"

definition memo :: obj where
  "memo = \<lparr>obj_ctype = 1, obj_id = 5\<rparr>"

definition notice :: obj where
  "notice = \<lparr>obj_ctype = 1, obj_id = 7\<rparr>"

text \<open>The configuration alone: no object has a workflow or a state.\<close>

definition db_config :: db where
  "db_config = \<lparr>
     State_objects = [draft, published, opened],
     Transition_objects = [publish, comment, retract],
     State_transitions = [(1, 1), (1, 2), (1, 3)],
     WorkflowObjectRelation_objects = [],
     WorkflowModelRelation_objects = [],
     StateObjectRelation_objects = [],
     StateObjectHistory_objects = [],
     WorkflowPermissionRelation_objects = [\<lparr>wpr_workflow = 1, wpr_permission = ''can_edit''\<rparr>],
     StatePermissionRelation_objects =
       [\<lparr>spr_state = 1, spr_permission = ''can_edit'', spr_role = ''owner''\<rparr>,
        \<lparr>spr_state = 2, spr_permission = ''can_edit'', spr_role = ''editor''\<rparr>,
        \<lparr>spr_state = 3, spr_permission = ''can_view'', spr_role = ''reader''\<rparr>],
     Role_objects = [''owner'', ''editor'', ''reader''],
     ObjectPermission_objects = {},
     Model_objects = [doc, memo, notice],
     signals_sent = []\<rparr>"

text \<open>
  The object doc has the workflow review and is in the state published; the object memo
  has a state and no workflow; the object notice has the workflow plain, which is
  responsible for no permission, and is in the state opened, which grants one.
\<close>

definition db_bound :: db where
  "db_bound = db_config\<lparr>
     WorkflowObjectRelation_objects :=
       [\<lparr>wor_content_type = 1, wor_content_id = 2, wor_workflow = review\<rparr>,
        \<lparr>wor_content_type = 1, wor_content_id = 7, wor_workflow = plain\<rparr>],
     StateObjectRelation_objects :=
       [\<lparr>sor_content_type = 1, sor_content_id = 2, sor_state = published\<rparr>,
        \<lparr>sor_content_type = 1, sor_content_id = 5, sor_state = opened\<rparr>,
        \<lparr>sor_content_type = 1, sor_content_id = 7, sor_state = opened\<rparr>],
     ObjectPermission_objects := {(doc, ''editor'', ''can_edit'')}\<rparr>"

text \<open>
  The same with a fourth object, card, of a content type that has the workflow review;
  card itself has the workflow plain and is in the state opened.
\<close>

definition card :: obj where
  "card = \<lparr>obj_ctype = 4, obj_id = 4\<rparr>"

definition db_typed :: db where
  "db_typed = db_bound\<lparr>
     WorkflowObjectRelation_objects :=
       [\<lparr>wor_content_type = 1, wor_content_id = 2, wor_workflow = review\<rparr>,
        \<lparr>wor_content_type = 1, wor_content_id = 7, wor_workflow = plain\<rparr>,
        \<lparr>wor_content_type = 4, wor_content_id = 4, wor_workflow = plain\<rparr>],
     WorkflowModelRelation_objects := [\<lparr>wmr_workflow = review, wmr_content_type = 4\<rparr>],
     StateObjectRelation_objects :=
       [\<lparr>sor_content_type = 1, sor_content_id = 2, sor_state = published\<rparr>,
        \<lparr>sor_content_type = 1, sor_content_id = 5, sor_state = opened\<rparr>,
        \<lparr>sor_content_type = 1, sor_content_id = 7, sor_state = opened\<rparr>,
        \<lparr>sor_content_type = 4, sor_content_id = 4, sor_state = opened\<rparr>],
     ObjectPermission_objects := {(doc, ''editor'', ''can_edit''), (card, ''reader'', ''can_view'')},
     Model_objects := [doc, memo, notice, card]\<rparr>"

text \<open>
  The database after the workflow has been removed from card, and after it has been
  removed from doc, by a host whose ORM compares a foreign key with the primary key of
  the instance given.
\<close>

definition db_card_removed :: db where
  "db_card_removed = db_typed\<lparr>
     WorkflowObjectRelation_objects :=
       [\<lparr>wor_content_type = 1, wor_content_id = 2, wor_workflow = review\<rparr>,
        \<lparr>wor_content_type = 1, wor_content_id = 7, wor_workflow = plain\<rparr>],
     StateObjectRelation_objects :=
       [\<lparr>sor_content_type = 1, sor_content_id = 2, sor_state = published\<rparr>,
        \<lparr>sor_content_type = 1, sor_content_id = 5, sor_state = opened\<rparr>,
        \<lparr>sor_content_type = 1, sor_content_id = 7, sor_state = opened\<rparr>,
        \<lparr>sor_content_type = 4, sor_content_id = 4, sor_state = draft\<rparr>],
     StateObjectHistory_objects :=
       [\<lparr>soh_content_type = 4, soh_content_id = 4, soh_state = draft\<rparr>],
     ObjectPermission_objects := {(card, ''owner'', ''can_edit''), (doc, ''editor'', ''can_edit'')},
     signals_sent := [Before_state_change card (Some opened) (Some draft),
                      After_state_change card (Some opened) (Some draft)]\<rparr>"

definition db_doc_removed :: db where
  "db_doc_removed = db_typed\<lparr>
     StateObjectRelation_objects :=
       [\<lparr>sor_content_type = 1, sor_content_id = 2, sor_state = draft\<rparr>,
        \<lparr>sor_content_type = 1, sor_content_id = 5, sor_state = opened\<rparr>,
        \<lparr>sor_content_type = 1, sor_content_id = 7, sor_state = opened\<rparr>,
        \<lparr>sor_content_type = 4, sor_content_id = 4, sor_state = opened\<rparr>],
     StateObjectHistory_objects :=
       [\<lparr>soh_content_type = 1, soh_content_id = 2, soh_state = draft\<rparr>],
     ObjectPermission_objects := {(doc, ''owner'', ''can_edit''), (card, ''reader'', ''can_view'')},
     signals_sent := [Before_state_change doc (Some published) (Some draft),
                      After_state_change doc (Some published) (Some draft)]\<rparr>"

text \<open>
  A database with one object, leaf, whose id is the id of its content type: leaf has the
  workflow review and is in the state published, and its content type has no workflow.
  Then the database after the workflow has been removed from leaf by a host whose ORM
  compares a foreign key with the primary key of the instance given.
\<close>

definition leaf :: obj where
  "leaf = \<lparr>obj_ctype = 6, obj_id = 6\<rparr>"

definition db_stale :: db where
  "db_stale = db_config\<lparr>
     WorkflowObjectRelation_objects :=
       [\<lparr>wor_content_type = 6, wor_content_id = 6, wor_workflow = review\<rparr>],
     StateObjectRelation_objects :=
       [\<lparr>sor_content_type = 6, sor_content_id = 6, sor_state = published\<rparr>],
     ObjectPermission_objects := {(leaf, ''editor'', ''can_edit'')},
     Model_objects := [leaf]\<rparr>"

definition db_leaf_removed :: db where
  "db_leaf_removed = db_stale\<lparr>
     WorkflowObjectRelation_objects := [],
     ObjectPermission_objects := {}\<rparr>"

text \<open>The object doc in the state draft.\<close>

definition db_draft :: db where
  "db_draft = db_bound\<lparr>
     StateObjectRelation_objects :=
       [\<lparr>sor_content_type = 1, sor_content_id = 2, sor_state = draft\<rparr>],
     ObjectPermission_objects := {(doc, ''owner'', ''can_edit'')}\<rparr>"

text \<open>
  A host whose objects have no \<open>has_permission\<close> of their own, whose default check
  passes for the user alice, and where the evaluation of the condition \<open>obj.locked\<close>
  raises AttributeError; then the same host with an ORM that checks the type of a
  foreign-key lookup, and with objects whose own \<open>has_permission\<close> raises AttributeError
  while it runs.
\<close>

definition host_default :: host where
  "host_default = \<lparr>
     has_permission_method = (\<lambda>ob usr p. NoSuchAttribute),
     utils_has_permission = (\<lambda>G ob usr p. usr = ''alice''),
     eval_condition = (\<lambda>c ob usr t. if c = ''obj.locked'' then EvalRaises AttributeError else Truthy),
     WORKFLOWS_ENABLE_STATE_HISTORY = True,
     fk_lookup_checks_type = False\<rparr>"

definition host_strict :: host where
  "host_strict = host_default\<lparr>fk_lookup_checks_type := True\<rparr>"

definition host_own_raises :: host where
  "host_own_raises = host_default\<lparr>has_permission_method := (\<lambda>ob usr p. Raises AttributeError)\<rparr>"

text \<open>A host with objects whose own \<open>has_permission\<close> raises ValueError.\<close>

definition host_own_fails :: host where
  "host_own_fails = host_default\<lparr>has_permission_method := (\<lambda>ob usr p. Raises ValueError)\<rparr>"

section \<open>Properties\<close>

lemmas example_defs = db_config_def db_bound_def db_draft_def host_default_def host_strict_def
  host_own_raises_def draft_def published_def opened_def review_def plain_def publish_def
  comment_def retract_def doc_def memo_def notice_def card_def db_typed_def

subsection \<open>Lookups\<close>

lemma objects_get_Inr: "objects_get P rows = Inr r \<Longrightarrow> filter P rows = [r]"
  by (auto simp: objects_get_def split: list.splits)

lemma objects_get_Inl:
  "objects_get P rows = Inl e \<Longrightarrow> (e = DoesNotExist \<and> filter P rows = []) \<or> e = MultipleObjectsReturned"
  by (auto simp: objects_get_def split: list.splits)

lemma objects_get_single: "filter P rows = [r] \<Longrightarrow> objects_get P rows = Inr r"
  by (simp add: objects_get_def)

lemma objects_get_none: "filter P rows = [] \<Longrightarrow> objects_get P rows = Inl DoesNotExist"
  by (simp add: objects_get_def)

lemma get_state_None: "get_state d ob = Inr None \<Longrightarrow> filter (sor_of ob) (StateObjectRelation_objects d) = []"
  by (auto simp: get_state_def split: sum.splits if_splits dest: objects_get_Inl)

lemma get_state_Some:
  "get_state d ob = Inr (Some s) \<Longrightarrow>
   \<exists>r. filter (sor_of ob) (StateObjectRelation_objects d) = [r] \<and> sor_state r = s"
  by (auto simp: get_state_def split: sum.splits if_splits dest: objects_get_Inr)

lemma foldl_grant:
  "foldl (\<lambda>G spr. grant_permission ob (spr_role spr) (spr_permission spr) G) G0 xs =
   G0 \<union> (\<lambda>spr. (ob, spr_role spr, spr_permission spr)) ` set xs"
  by (induction xs arbitrary: G0) (auto simp: grant_permission_def)

lemma update_permissions_eq:
  assumes "get_workflow d ob = Inr w" and "get_state d ob = Inr s"
  shows "update_permissions h d ob =
    (Inr (), d\<lparr>ObjectPermission_objects :=
       {g \<in> ObjectPermission_objects d.
          \<not> (fst g = ob \<and> fst (snd g) \<in> set (Role_objects d) \<and> snd (snd g) \<in> managed d w)}
       \<union> configured d s ob\<rparr>)"
proof -
  have p: "wpr_permission ` {x \<in> set (WorkflowPermissionRelation_objects d).
              Some (wpr_workflow x) = map_option w_id w} = managed d w"
    by (cases w) (auto simp: managed_def workflow_permissions_def)
  have c: "(\<lambda>x. (ob, spr_role x, spr_permission x)) `
             {x \<in> set (StatePermissionRelation_objects d). Some (spr_state x) = map_option s_id s}
           = configured d s ob"
    by (cases s) (auto simp: configured_def state_grants_def)
  show ?thesis
    using assms
    by (simp add: update_permissions_def Let_def foldl_grant remove_permission_def c p)
qed

lemma update_permissions_frame:
  "(\<exists>e. update_permissions h d ob = (Inl e, d)) \<or>
   (\<exists>G. update_permissions h d ob = (Inr (), d\<lparr>ObjectPermission_objects := G\<rparr>))"
proof (cases "get_workflow d ob")
  case (Inl e)
  then show ?thesis by (simp add: update_permissions_def)
next
  case w: (Inr w)
  show ?thesis
  proof (cases "get_state d ob")
    case (Inl e)
    then show ?thesis using w by (simp add: update_permissions_def)
  next
    case (Inr s)
    from update_permissions_eq [OF w this] show ?thesis by blast
  qed
qed

lemma get_state_cong:
  "StateObjectRelation_objects d' = StateObjectRelation_objects d \<Longrightarrow> get_state d' ob = get_state d ob"
  by (simp add: get_state_def)

lemma get_workflow_for_model_cong:
  "WorkflowModelRelation_objects d' = WorkflowModelRelation_objects d \<Longrightarrow>
   get_workflow_for_model d' c = get_workflow_for_model d c"
  by (simp add: get_workflow_for_model_def)

lemma get_workflow_for_object_cong:
  "WorkflowObjectRelation_objects d' = WorkflowObjectRelation_objects d \<Longrightarrow>
   get_workflow_for_object d' ob = get_workflow_for_object d ob"
  by (simp add: get_workflow_for_object_def)

lemma get_workflow_cong:
  "WorkflowObjectRelation_objects d' = WorkflowObjectRelation_objects d \<Longrightarrow>
   WorkflowModelRelation_objects d' = WorkflowModelRelation_objects d \<Longrightarrow>
   get_workflow d' ob = get_workflow d ob"
  using get_workflow_for_model_cong [of d' d] get_workflow_for_object_cong [of d' d]
  by (simp add: get_workflow_def split: sum.splits option.splits)

lemma get_state_grants [simp]: "get_state (d\<lparr>ObjectPermission_objects := G\<rparr>) ob = get_state d ob"
  by (rule get_state_cong) simp

lemma get_workflow_grants [simp]: "get_workflow (d\<lparr>ObjectPermission_objects := G\<rparr>) ob = get_workflow d ob"
  by (rule get_workflow_cong) simp_all

lemma managed_grants [simp]: "managed (d\<lparr>ObjectPermission_objects := G\<rparr>) w = managed d w"
  by (simp add: managed_def workflow_permissions_def split: option.splits)

lemma configured_grants [simp]: "configured (d\<lparr>ObjectPermission_objects := G\<rparr>) s ob = configured d s ob"
  by (simp add: configured_def state_grants_def split: option.splits)

text \<open>
  C8. Permission recomputation is idempotent: running \<open>update_permissions\<close> a second
  time on the database the first run left gives the same outcome and the same database,
  hence the same grants, as the first run.
\<close>

theorem update_permissions_idempotent:
  "update_permissions h (snd (update_permissions h d ob)) ob = update_permissions h d ob"
proof (cases "get_workflow d ob")
  case (Inl e)
  then show ?thesis by (simp add: update_permissions_def)
next
  case w: (Inr w)
  show ?thesis
  proof (cases "get_state d ob")
    case (Inl e)
    then show ?thesis using w by (simp add: update_permissions_def)
  next
    case s: (Inr s)
    define G1 where "G1 = {g \<in> ObjectPermission_objects d.
          \<not> (fst g = ob \<and> fst (snd g) \<in> set (Role_objects d) \<and> snd (snd g) \<in> managed d w)}
       \<union> configured d s ob"
    define d1 where "d1 = d\<lparr>ObjectPermission_objects := G1\<rparr>"
    have once: "update_permissions h d ob = (Inr (), d1)"
      unfolding d1_def G1_def by (rule update_permissions_eq [OF w s])
    have w1: "get_workflow d1 ob = Inr w" and s1: "get_state d1 ob = Inr s"
      using w s by (simp_all add: d1_def)
    have G: "{g \<in> G1. \<not> (fst g = ob \<and> fst (snd g) \<in> set (Role_objects d) \<and> snd (snd g) \<in> managed d w)}
               \<union> configured d s ob = G1"
      unfolding G1_def by blast
    have "update_permissions h d1 ob = (Inr (), d1\<lparr>ObjectPermission_objects := G1\<rparr>)"
      using update_permissions_eq [OF w1 s1, of h] G by (simp add: d1_def)
    also have "d1\<lparr>ObjectPermission_objects := G1\<rparr> = d1"
      by (simp add: d1_def)
    finally show ?thesis by (simp add: once)
  qed
qed

subsection \<open>Permission recomputation\<close>




subsection \<open>Applying a transition\<close>

lemma send_fields [simp]:
  "StateObjectRelation_objects (send sig d) = StateObjectRelation_objects d"
  "StateObjectHistory_objects (send sig d) = StateObjectHistory_objects d"
  "WorkflowObjectRelation_objects (send sig d) = WorkflowObjectRelation_objects d"
  "WorkflowModelRelation_objects (send sig d) = WorkflowModelRelation_objects d"
  "ObjectPermission_objects (send sig d) = ObjectPermission_objects d"
  "signals_sent (send sig d) = signals_sent d @ [sig]"
  by (simp_all add: send_def)

lemma get_state_signals [simp]: "get_state (d\<lparr>signals_sent := x\<rparr>) ob = get_state d ob"
  by (rule get_state_cong) simp

lemma get_state_send [simp]: "get_state (send sig d) ob = get_state d ob"
  by (rule get_state_cong) simp

lemma get_workflow_send [simp]: "get_workflow (send sig d) ob = get_workflow d ob"
  by (rule get_workflow_cong) simp_all

text \<open>
  C5. \<open>do_transition\<close> returns \<open>False\<close> when its argument is a codename that no
  Transition has, and when the resolved transition is not among the allowed transitions of
  the object and the user. In both cases it raises nothing and returns the database as it
  was: the state of the object is unchanged and no signal is sent.
\<close>

theorem do_transition_refused:
  "((\<forall>t \<in> set (Transition_objects d). t_codename t \<noteq> c) \<longrightarrow>
      do_transition h d ob (TransitionCodename c) usr = (Inr False, d)) \<and>
   (resolve_transition d ta = Inr t \<and> get_allowed_transitions h d ob usr = Inr ts \<and>
      \<not> transition_in t ts \<longrightarrow>
      do_transition h d ob ta usr = (Inr False, d))"
proof (intro conjI impI)
  assume "\<forall>t \<in> set (Transition_objects d). t_codename t \<noteq> c"
  then have "filter (\<lambda>t. t_codename t = c) (Transition_objects d) = []"
    by (simp add: filter_empty_conv)
  then have "resolve_transition d (TransitionCodename c) = Inl DoesNotExist"
    by (simp add: resolve_transition_def objects_get_none)
  then show "do_transition h d ob (TransitionCodename c) usr = (Inr False, d)"
    by (simp add: do_transition_def)
next
  assume "resolve_transition d ta = Inr t \<and> get_allowed_transitions h d ob usr = Inr ts \<and>
      \<not> transition_in t ts"
  then show "do_transition h d ob ta usr = (Inr False, d)"
    by (simp add: do_transition_def)
qed

text \<open>
  C6. For an allowed transition whose destination is \<open>None\<close> or is the current state of
  the object, \<open>do_transition\<close> returns \<open>True\<close> and sends \<open>before_transition\<close> and
  \<open>after_transition\<close>, and nothing else changes: the state of the object, the
  StateObjectRelation rows and the history are as before.
\<close>

theorem do_transition_in_place:
  assumes "resolve_transition d ta = Inr t"
    and "get_allowed_transitions h d ob usr = Inr ts"
    and "transition_in t ts"
    and "get_state d ob = Inr cur"
    and "t_destination t = None \<or> map_option s_id (t_destination t) = map_option s_id cur"
  shows "do_transition h d ob ta usr =
      (Inr True, d\<lparr>signals_sent := signals_sent d @
         [Before_transition ob cur t usr, After_transition ob cur t usr]\<rparr>) \<and>
    get_state (snd (do_transition h d ob ta usr)) ob = get_state d ob \<and>
    StateObjectRelation_objects (snd (do_transition h d ob ta usr)) = StateObjectRelation_objects d \<and>
    StateObjectHistory_objects (snd (do_transition h d ob ta usr)) = StateObjectHistory_objects d"
proof -
  have r: "(case t_destination t of
              None \<Rightarrow> (Inr (), send (Before_transition ob cur t usr) d)
            | Some dest \<Rightarrow>
                if Some (s_id dest) \<noteq> map_option s_id cur
                then set_state h (send (Before_transition ob cur t usr) d) ob (StateInstance dest)
                else (Inr (), send (Before_transition ob cur t usr) d))
           = (Inr (), send (Before_transition ob cur t usr) d)"
    using assms(5) by (auto split: option.splits)
  have eq: "do_transition h d ob ta usr =
      (Inr True, send (After_transition ob cur t usr) (send (Before_transition ob cur t usr) d))"
    using assms(1-4) by (simp add: do_transition_def Let_def r)
  have "send (After_transition ob cur t usr) (send (Before_transition ob cur t usr) d) =
      d\<lparr>signals_sent := signals_sent d @
         [Before_transition ob cur t usr, After_transition ob cur t usr]\<rparr>"
    by (simp add: send_def)
  with eq have eq': "do_transition h d ob ta usr =
      (Inr True, d\<lparr>signals_sent := signals_sent d @
         [Before_transition ob cur t usr, After_transition ob cur t usr]\<rparr>)"
    by simp
  have "get_state (d\<lparr>signals_sent := signals_sent d @
         [Before_transition ob cur t usr, After_transition ob cur t usr]\<rparr>) ob = get_state d ob"
    by (rule get_state_cong) simp
  then show ?thesis
    unfolding eq' by simp
qed

lemma get_state_db_draft: "get_state db_draft doc = Inr (Some draft)"
  by (simp add: example_defs get_state_def objects_get_def sor_of_def)

lemma transitions_all_draft: "transitions_all db_draft draft = [publish, comment, retract]"
  by (simp add: example_defs transitions_all_def)

lemma allowed_bob: "get_allowed_transitions host_default db_draft doc ''bob'' = Inr [comment]"
  by (simp add: get_allowed_transitions_def get_state_db_draft State_get_allowed_transitions_def
      transitions_all_draft condition_met_def host_default_def publish_def comment_def retract_def)

lemma allowed_alice: "get_allowed_transitions host_default db_draft doc ''alice'' = Inr [publish, comment]"
  by (simp add: get_allowed_transitions_def get_state_db_draft State_get_allowed_transitions_def
      transitions_all_draft condition_met_def host_default_def publish_def comment_def retract_def)

text \<open>
  C5 in the example: an unknown codename, and the transition publish for the user bob, who
  may not publish.
\<close>

theorem do_transition_refused_witness:
  "do_transition host_default db_draft doc (TransitionCodename ''archive'') ''bob'' = (Inr False, db_draft) \<and>
   resolve_transition db_draft (TransitionCodename ''publish'') = Inr publish \<and>
   get_allowed_transitions host_default db_draft doc ''bob'' = Inr [comment] \<and>
   \<not> transition_in publish [comment] \<and>
   do_transition host_default db_draft doc (TransitionCodename ''publish'') ''bob'' = (Inr False, db_draft)"
proof -
  have a: "\<forall>t \<in> set (Transition_objects db_draft). t_codename t \<noteq> ''archive''"
    by (simp add: example_defs)
  have b: "resolve_transition db_draft (TransitionCodename ''publish'') = Inr publish"
    by (simp add: example_defs resolve_transition_def objects_get_def)
  have c: "\<not> transition_in publish [comment]"
    by (simp add: transition_in_def publish_def comment_def)
  show ?thesis
    using do_transition_refused [of db_draft "''archive''" host_default doc "''bob''"
        "TransitionCodename ''publish''" publish "[comment]"] a b c allowed_bob
    by simp
qed

text \<open>
  C6 in the example: the transition comment, which has no destination, applied by alice.
\<close>

theorem do_transition_in_place_witness:
  "resolve_transition db_draft (TransitionCodename ''comment'') = Inr comment \<and>
   get_allowed_transitions host_default db_draft doc ''alice'' = Inr [publish, comment] \<and>
   transition_in comment [publish, comment] \<and>
   get_state db_draft doc = Inr (Some draft) \<and>
   t_destination comment = None \<and>
   do_transition host_default db_draft doc (TransitionCodename ''comment'') ''alice'' =
     (Inr True, db_draft\<lparr>signals_sent :=
        [Before_transition doc (Some draft) comment ''alice'',
         After_transition doc (Some draft) comment ''alice'']\<rparr>) \<and>
   get_state (snd (do_transition host_default db_draft doc (TransitionCodename ''comment'') ''alice'')) doc
     = Inr (Some draft)"
proof -
  have b: "resolve_transition db_draft (TransitionCodename ''comment'') = Inr comment"
    by (simp add: example_defs resolve_transition_def objects_get_def)
  have c: "transition_in comment [publish, comment]"
    by (simp add: transition_in_def publish_def comment_def)
  have e: "t_destination comment = None"
    by (simp add: comment_def)
  have f: "signals_sent db_draft = []"
    by (simp add: example_defs)
  from e have e': "t_destination comment = None \<or>
      map_option s_id (t_destination comment) = map_option s_id (Some draft)" by simp
  show ?thesis
    using do_transition_in_place [OF b allowed_alice c get_state_db_draft e', of ] b c e f
      allowed_alice get_state_db_draft
    by simp
qed

subsection \<open>Allowed transitions\<close>

lemma allowed_loop_Inr:
  "\<forall>t \<in> set ts. own_check_error h ob usr t = None \<Longrightarrow>
   allowed_loop h d ob usr ts acc = Inr (acc @ filter (appended h d ob usr) ts)"
proof (induction ts arbitrary: acc)
  case Nil
  then show ?case by simp
next
  case (Cons t ts)
  then have IH: "\<And>acc. allowed_loop h d ob usr ts acc = Inr (acc @ filter (appended h d ob usr) ts)"
    by simp
  from Cons.prems have e: "own_check_error h ob usr t = None" by simp
  show ?case
  proof (cases "t_permission t")
    case None
    then have "appended h d ob usr t = condition_met h ob usr t"
      by (simp add: appended_def)
    then show ?thesis using None by (simp add: IH)
  next
    case (Some p)
    show ?thesis
    proof (cases "has_permission_method h ob usr p")
      case NoSuchAttribute
      then have "appended h d ob usr t =
          (utils_has_permission h (ObjectPermission_objects d) ob usr p \<and> condition_met h ob usr t)"
        using Some by (simp add: appended_def)
      then show ?thesis using Some NoSuchAttribute by (simp add: IH)
    next
      case (Returns b)
      then have "appended h d ob usr t = (b \<and> condition_met h ob usr t)"
        using Some by (simp add: appended_def)
      then show ?thesis using Some Returns by (simp add: IH)
    next
      case (Raises x)
      with e Some have x: "x = AttributeError"
        by (simp add: own_check_error_def split: if_splits)
      have "appended h d ob usr t =
          (utils_has_permission h (ObjectPermission_objects d) ob usr p \<and> condition_met h ob usr t)"
        using Some Raises by (simp add: appended_def)
      then show ?thesis using Some Raises x by (simp add: IH)
    qed
  qed
qed

lemma allowed_loop_Inl:
  "\<exists>t \<in> set ts. own_check_error h ob usr t \<noteq> None \<Longrightarrow>
   \<exists>t \<in> set ts. \<exists>e. own_check_error h ob usr t = Some e \<and> allowed_loop h d ob usr ts acc = Inl e"
proof (induction ts arbitrary: acc)
  case Nil
  then show ?case by simp
next
  case (Cons t ts)
  show ?case
  proof (cases "own_check_error h ob usr t")
    case None
    with Cons.prems have "\<exists>t \<in> set ts. own_check_error h ob usr t \<noteq> None" by auto
    from Cons.IH [OF this] have IH:
      "\<And>acc. \<exists>t \<in> set ts. \<exists>e. own_check_error h ob usr t = Some e \<and> allowed_loop h d ob usr ts acc = Inl e"
      by simp
    have "\<exists>acc'. allowed_loop h d ob usr (t # ts) acc = allowed_loop h d ob usr ts acc'"
      using None
      by (auto simp: own_check_error_def split: option.splits own_check.splits if_splits)
    then obtain acc' where "allowed_loop h d ob usr (t # ts) acc = allowed_loop h d ob usr ts acc'" ..
    with IH [of acc'] show ?thesis by auto
  next
    case (Some e)
    then have "allowed_loop h d ob usr (t # ts) acc = Inl e"
      by (auto simp: own_check_error_def split: option.splits own_check.splits if_splits)
    with Some show ?thesis by auto
  qed
qed

lemma allowed_loop_cases:
  "(allowed_loop h d ob usr ts [] = Inr (filter (appended h d ob usr) ts) \<and>
      (\<forall>t \<in> set ts. own_check_error h ob usr t = None)) \<or>
   (\<exists>t \<in> set ts. \<exists>e. own_check_error h ob usr t = Some e \<and> allowed_loop h d ob usr ts [] = Inl e)"
proof (cases "\<forall>t \<in> set ts. own_check_error h ob usr t = None")
  case True
  from allowed_loop_Inr [OF this, of d "[]"] True show ?thesis by simp
next
  case False
  then have "\<exists>t \<in> set ts. own_check_error h ob usr t \<noteq> None" by simp
  from allowed_loop_Inl [OF this] show ?thesis by blast
qed

lemma get_allowed_transitions_cases:
  assumes "get_state d ob = Inr (Some st)"
  shows "(get_allowed_transitions h d ob usr = Inr (filter (appended h d ob usr) (transitions_all d st)) \<and>
      (\<forall>t \<in> set (transitions_all d st). own_check_error h ob usr t = None)) \<or>
   (\<exists>t \<in> set (transitions_all d st). \<exists>e. own_check_error h ob usr t = Some e \<and>
      get_allowed_transitions h d ob usr = Inl e)"
  using allowed_loop_cases [of h d ob usr "transitions_all d st"] assms
  by (simp add: get_allowed_transitions_def State_get_allowed_transitions_def)

lemma own_check_error_Some:
  "own_check_error h ob usr t = Some e \<Longrightarrow>
   \<exists>p. t_permission t = Some p \<and> has_permission_method h ob usr p = Raises e \<and> e \<noteq> AttributeError"
  by (auto simp: own_check_error_def split: option.splits own_check.splits if_splits)

lemma allowed_loop_skip:
  "own_check_error h ob usr t = None \<Longrightarrow>
   \<exists>acc'. allowed_loop h d ob usr (t # ts) acc = allowed_loop h d ob usr ts acc'"
  by (auto simp: own_check_error_def split: option.splits own_check.splits if_splits)

lemma allowed_loop_stop:
  "own_check_error h ob usr t = Some e \<Longrightarrow> allowed_loop h d ob usr (t # ts) acc = Inl e"
  by (auto simp: own_check_error_def split: option.splits own_check.splits if_splits)

lemma allowed_loop_Inl_iff:
  "allowed_loop h d ob usr ts acc = Inl e \<longleftrightarrow>
   (\<exists>pre t post. ts = pre @ t # post \<and> (\<forall>x \<in> set pre. own_check_error h ob usr x = None) \<and>
      own_check_error h ob usr t = Some e)"
proof (induction ts arbitrary: acc)
  case Nil
  then show ?case by simp
next
  case (Cons t0 ts)
  show ?case
  proof (cases "own_check_error h ob usr t0")
    case None
    from allowed_loop_skip [OF None] obtain acc' where
      s: "allowed_loop h d ob usr (t0 # ts) acc = allowed_loop h d ob usr ts acc'" by blast
    have "(\<exists>pre t post. t0 # ts = pre @ t # post \<and> (\<forall>x \<in> set pre. own_check_error h ob usr x = None) \<and>
        own_check_error h ob usr t = Some e) \<longleftrightarrow>
      (\<exists>pre t post. ts = pre @ t # post \<and> (\<forall>x \<in> set pre. own_check_error h ob usr x = None) \<and>
        own_check_error h ob usr t = Some e)" (is "?L \<longleftrightarrow> ?R")
    proof
      assume ?L
      then obtain pre t post where p: "t0 # ts = pre @ t # post"
        "\<forall>x \<in> set pre. own_check_error h ob usr x = None" "own_check_error h ob usr t = Some e"
        by blast
      show ?R
      proof (cases pre)
        case Nil
        with p None show ?thesis by simp
      next
        case (Cons a pre')
        with p have "ts = pre' @ t # post" "\<forall>x \<in> set pre'. own_check_error h ob usr x = None"
          by simp_all
        with p(3) show ?thesis by blast
      qed
    next
      assume ?R
      then obtain pre t post where p: "ts = pre @ t # post"
        "\<forall>x \<in> set pre. own_check_error h ob usr x = None" "own_check_error h ob usr t = Some e"
        by blast
      then have "t0 # ts = (t0 # pre) @ t # post"
        "\<forall>x \<in> set (t0 # pre). own_check_error h ob usr x = None"
        using None by simp_all
      with p(3) show ?L by blast
    qed
    with Cons.IH [of acc'] s show ?thesis by simp
  next
    case (Some e0)
    have "(\<exists>pre t post. t0 # ts = pre @ t # post \<and> (\<forall>x \<in> set pre. own_check_error h ob usr x = None) \<and>
        own_check_error h ob usr t = Some e) \<longleftrightarrow> e0 = e" (is "?L \<longleftrightarrow> _")
    proof
      assume ?L
      then obtain pre t post where p: "t0 # ts = pre @ t # post"
        "\<forall>x \<in> set pre. own_check_error h ob usr x = None" "own_check_error h ob usr t = Some e"
        by blast
      show "e0 = e"
      proof (cases pre)
        case Nil
        with p Some show ?thesis by simp
      next
        case (Cons a pre')
        with p Some show ?thesis by simp
      qed
    next
      assume "e0 = e"
      with Some have "t0 # ts = [] @ t0 # ts" "\<forall>x \<in> set []. own_check_error h ob usr x = None"
        "own_check_error h ob usr t0 = Some e" by simp_all
      then show ?L by blast
    qed
    with allowed_loop_stop [OF Some, of d ts acc] show ?thesis by auto
  qed
qed

lemma get_allowed_transitions_Inl_iff:
  assumes "get_state d ob = Inr (Some st)"
  shows "get_allowed_transitions h d ob usr = Inl e \<longleftrightarrow>
   (\<exists>pre t post. transitions_all d st = pre @ t # post \<and>
      (\<forall>x \<in> set pre. own_check_error h ob usr x = None) \<and> own_check_error h ob usr t = Some e)"
  using assms allowed_loop_Inl_iff [of h d ob usr "transitions_all d st" "[]" e]
  by (simp add: get_allowed_transitions_def State_get_allowed_transitions_def)

text \<open>
  C3, as amended. Let t be a transition of the current state of the object that carries a
  required permission. When the object's own \<open>has_permission\<close> returns a value, t is
  among the allowed transitions iff that value is true and the guard is met; so a check
  that returns false excludes t whatever the guard. When the call raises AttributeError,
  because the object has no such method or because the method raises it while it runs,
  the default check of the permissions package decides in the same way. When the own
  check for t raises any other exception, \<open>get_allowed_transitions\<close> raises instead of
  returning. What it raises is the exception of the first transition of the state, in
  store order, whose own check raises something other than AttributeError: the exception
  of t when no own check of an earlier transition raises one.
\<close>

theorem allowed_transitions_permission_check:
  assumes "get_state d ob = Inr (Some st)"
    and "t \<in> set (transitions_all d st)"
    and "t_permission t = Some p"
  shows "(\<forall>ts. get_allowed_transitions h d ob usr = Inr ts \<longrightarrow>
      (\<forall>b. has_permission_method h ob usr p = Returns b \<longrightarrow>
         (t \<in> set ts \<longleftrightarrow> b \<and> condition_met h ob usr t)) \<and>
      (has_permission_method h ob usr p = NoSuchAttribute \<or>
       has_permission_method h ob usr p = Raises AttributeError \<longrightarrow>
         (t \<in> set ts \<longleftrightarrow>
            utils_has_permission h (ObjectPermission_objects d) ob usr p \<and> condition_met h ob usr t))) \<and>
    (\<forall>e. has_permission_method h ob usr p = Raises e \<and> e \<noteq> AttributeError \<longrightarrow>
       (\<exists>e'. get_allowed_transitions h d ob usr = Inl e') \<and>
       (\<forall>pre post. transitions_all d st = pre @ t # post \<and>
          (\<forall>x \<in> set pre. \<forall>q e'. t_permission x = Some q \<and>
             has_permission_method h ob usr q = Raises e' \<longrightarrow> e' = AttributeError) \<longrightarrow>
          get_allowed_transitions h d ob usr = Inl e)) \<and>
    (\<forall>e'. get_allowed_transitions h d ob usr = Inl e' \<longleftrightarrow>
       (\<exists>pre x post q. transitions_all d st = pre @ x # post \<and>
          (\<forall>y \<in> set pre. \<forall>q' e''. t_permission y = Some q' \<and>
             has_permission_method h ob usr q' = Raises e'' \<longrightarrow> e'' = AttributeError) \<and>
          t_permission x = Some q \<and> has_permission_method h ob usr q = Raises e' \<and>
          e' \<noteq> AttributeError))"
proof -
  have none: "\<And>y. own_check_error h ob usr y = None \<longleftrightarrow>
      (\<forall>q' e''. t_permission y = Some q' \<and> has_permission_method h ob usr q' = Raises e''
         \<longrightarrow> e'' = AttributeError)"
    by (auto simp: own_check_error_def split: option.splits own_check.splits if_splits)
  have some: "\<And>x e'. own_check_error h ob usr x = Some e' \<longleftrightarrow>
      (\<exists>q. t_permission x = Some q \<and> has_permission_method h ob usr q = Raises e' \<and>
         e' \<noteq> AttributeError)"
    by (auto simp: own_check_error_def split: option.splits own_check.splits if_splits)
  note iff = get_allowed_transitions_Inl_iff [OF assms(1), of h usr, unfolded none some]
  have a: "\<forall>ts. get_allowed_transitions h d ob usr = Inr ts \<longrightarrow>
      (\<forall>b. has_permission_method h ob usr p = Returns b \<longrightarrow>
         (t \<in> set ts \<longleftrightarrow> b \<and> condition_met h ob usr t)) \<and>
      (has_permission_method h ob usr p = NoSuchAttribute \<or>
       has_permission_method h ob usr p = Raises AttributeError \<longrightarrow>
         (t \<in> set ts \<longleftrightarrow>
            utils_has_permission h (ObjectPermission_objects d) ob usr p \<and> condition_met h ob usr t))"
  proof (intro conjI allI impI)
    fix ts b
    assume "get_allowed_transitions h d ob usr = Inr ts" "has_permission_method h ob usr p = Returns b"
    with get_allowed_transitions_cases [OF assms(1), of h usr]
    show "t \<in> set ts \<longleftrightarrow> b \<and> condition_met h ob usr t"
      using assms(2,3) by (auto simp: appended_def)
  next
    fix ts
    assume "get_allowed_transitions h d ob usr = Inr ts"
      "has_permission_method h ob usr p = NoSuchAttribute \<or>
       has_permission_method h ob usr p = Raises AttributeError"
    with get_allowed_transitions_cases [OF assms(1), of h usr]
    show "t \<in> set ts \<longleftrightarrow>
        utils_has_permission h (ObjectPermission_objects d) ob usr p \<and> condition_met h ob usr t"
      using assms(2,3) by (auto simp: appended_def)
  qed
  have b: "\<forall>e. has_permission_method h ob usr p = Raises e \<and> e \<noteq> AttributeError \<longrightarrow>
       (\<exists>e'. get_allowed_transitions h d ob usr = Inl e') \<and>
       (\<forall>pre post. transitions_all d st = pre @ t # post \<and>
          (\<forall>x \<in> set pre. \<forall>q e'. t_permission x = Some q \<and>
             has_permission_method h ob usr q = Raises e' \<longrightarrow> e' = AttributeError) \<longrightarrow>
          get_allowed_transitions h d ob usr = Inl e)"
  proof (intro allI impI conjI)
    fix e
    assume r: "has_permission_method h ob usr p = Raises e \<and> e \<noteq> AttributeError"
    then have "own_check_error h ob usr t = Some e"
      using assms(3) by (simp add: own_check_error_def)
    with get_allowed_transitions_cases [OF assms(1), of h usr] assms(2)
    show "\<exists>e'. get_allowed_transitions h d ob usr = Inl e'"
      by force
  next
    fix e pre post
    assume r: "has_permission_method h ob usr p = Raises e \<and> e \<noteq> AttributeError"
      and s: "transitions_all d st = pre @ t # post \<and>
          (\<forall>x \<in> set pre. \<forall>q e'. t_permission x = Some q \<and>
             has_permission_method h ob usr q = Raises e' \<longrightarrow> e' = AttributeError)"
    show "get_allowed_transitions h d ob usr = Inl e"
      unfolding iff using r s assms(3) by blast
  qed
  have c: "\<forall>e'. get_allowed_transitions h d ob usr = Inl e' \<longleftrightarrow>
       (\<exists>pre x post q. transitions_all d st = pre @ x # post \<and>
          (\<forall>y \<in> set pre. \<forall>q' e''. t_permission y = Some q' \<and>
             has_permission_method h ob usr q' = Raises e'' \<longrightarrow> e'' = AttributeError) \<and>
          t_permission x = Some q \<and> has_permission_method h ob usr q = Raises e' \<and>
          e' \<noteq> AttributeError)"
    unfolding iff by blast
  show ?thesis by (rule conjI [OF a conjI [OF b c]])
qed

text \<open>
  C7. A transition whose condition is not empty and whose evaluation raises has its guard
  not met and is not among the allowed transitions; a transition with an empty condition
  has its guard met. The exception of a guard is never propagated: an exception that
  \<open>get_allowed_transitions\<close> raises is one that an object's own permission check raised.
\<close>

theorem allowed_transitions_guard_failure:
  assumes "get_state d ob = Inr (Some st)"
    and "t \<in> set (transitions_all d st)"
  shows "(t_condition t \<noteq> [] \<and> (\<exists>e. eval_condition h (t_condition t) ob usr t = EvalRaises e) \<longrightarrow>
       \<not> condition_met h ob usr t \<and>
       (\<forall>ts. get_allowed_transitions h d ob usr = Inr ts \<longrightarrow> t \<notin> set ts)) \<and>
    (t_condition t = [] \<longrightarrow> condition_met h ob usr t) \<and>
    (\<forall>e. get_allowed_transitions h d ob usr = Inl e \<longrightarrow>
       (\<exists>t' \<in> set (transitions_all d st). \<exists>p. t_permission t' = Some p \<and>
          has_permission_method h ob usr p = Raises e \<and> e \<noteq> AttributeError))"
proof (intro conjI allI impI)
  assume a: "t_condition t \<noteq> [] \<and> (\<exists>e. eval_condition h (t_condition t) ob usr t = EvalRaises e)"
  then show n: "\<not> condition_met h ob usr t"
    by (auto simp: condition_met_def)
  fix ts
  assume "get_allowed_transitions h d ob usr = Inr ts"
  with get_allowed_transitions_cases [OF assms(1), of h usr] n
  show "t \<notin> set ts" by (auto simp: appended_def)
next
  assume "t_condition t = []"
  then show "condition_met h ob usr t" by (simp add: condition_met_def)
next
  fix e
  assume "get_allowed_transitions h d ob usr = Inl e"
  with get_allowed_transitions_cases [OF assms(1), of h usr]
  obtain t' where "t' \<in> set (transitions_all d st)" "own_check_error h ob usr t' = Some e"
    by auto
  then show "\<exists>t' \<in> set (transitions_all d st). \<exists>p. t_permission t' = Some p \<and>
          has_permission_method h ob usr p = Raises e \<and> e \<noteq> AttributeError"
    using own_check_error_Some by blast
qed

text \<open>
  C10. When the object's own \<open>has_permission\<close> raises AttributeError while it runs, the
  transition is allowed iff the default check of the permissions package passes and the
  guard is met; and AttributeError is never propagated: when the own checks raise nothing
  else, \<open>get_allowed_transitions\<close> returns a list.
\<close>

theorem allowed_transitions_attribute_error_fallback:
  assumes "get_state d ob = Inr (Some st)"
    and "t \<in> set (transitions_all d st)"
    and "t_permission t = Some p"
    and "has_permission_method h ob usr p = Raises AttributeError"
  shows "(\<forall>ts. get_allowed_transitions h d ob usr = Inr ts \<longrightarrow>
       (t \<in> set ts \<longleftrightarrow>
          utils_has_permission h (ObjectPermission_objects d) ob usr p \<and> condition_met h ob usr t)) \<and>
    ((\<forall>t' \<in> set (transitions_all d st). \<forall>p' e. t_permission t' = Some p' \<longrightarrow>
         has_permission_method h ob usr p' = Raises e \<longrightarrow> e = AttributeError) \<longrightarrow>
       (\<exists>ts. get_allowed_transitions h d ob usr = Inr ts))"
proof (intro conjI allI impI)
  fix ts
  assume "get_allowed_transitions h d ob usr = Inr ts"
  with get_allowed_transitions_cases [OF assms(1), of h usr]
  show "t \<in> set ts \<longleftrightarrow>
      utils_has_permission h (ObjectPermission_objects d) ob usr p \<and> condition_met h ob usr t"
    using assms(2,3,4) by (auto simp: appended_def)
next
  assume a: "\<forall>t' \<in> set (transitions_all d st). \<forall>p' e. t_permission t' = Some p' \<longrightarrow>
         has_permission_method h ob usr p' = Raises e \<longrightarrow> e = AttributeError"
  have "\<forall>t' \<in> set (transitions_all d st). own_check_error h ob usr t' = None"
  proof
    fix t' assume "t' \<in> set (transitions_all d st)"
    with a show "own_check_error h ob usr t' = None"
      by (cases "own_check_error h ob usr t'") (auto dest!: own_check_error_Some)
  qed
  with get_allowed_transitions_cases [OF assms(1), of h usr]
  show "\<exists>ts. get_allowed_transitions h d ob usr = Inr ts" by auto
qed

lemma allowed_alice_own_raises:
  "get_allowed_transitions host_own_raises db_draft doc ''alice'' = Inr [publish, comment]"
  by (simp add: get_allowed_transitions_def get_state_db_draft State_get_allowed_transitions_def
      transitions_all_draft condition_met_def host_default_def host_own_raises_def
      publish_def comment_def retract_def)

text \<open>
  C3 as stated fails: the objects of this host have a \<open>has_permission\<close> that raises
  AttributeError, so the check of the claim does not pass, and yet publish is allowed.
\<close>

theorem allowed_transitions_own_check_counterexample:
  "t_permission publish = Some ''can_publish'' \<and>
   has_permission_method host_own_raises doc ''alice'' ''can_publish'' = Raises AttributeError \<and>
   \<not> spec_check_passes host_own_raises db_draft doc ''alice'' ''can_publish'' \<and>
   condition_met host_own_raises doc ''alice'' publish \<and>
   get_allowed_transitions host_own_raises db_draft doc ''alice'' = Inr [publish, comment]"
proof -
  have "t_permission publish = Some ''can_publish''"
    by (simp add: publish_def)
  moreover have "has_permission_method host_own_raises doc ''alice'' ''can_publish'' = Raises AttributeError"
    by (simp add: host_own_raises_def)
  moreover have "\<not> spec_check_passes host_own_raises db_draft doc ''alice'' ''can_publish''"
    by (simp add: spec_check_passes_def host_own_raises_def)
  moreover have "condition_met host_own_raises doc ''alice'' publish"
    by (simp add: condition_met_def publish_def)
  ultimately show ?thesis
    using allowed_alice_own_raises by simp
qed

text \<open>
  The amended C3 in the example: bob fails the default check and may not publish; and
  with objects whose own check raises ValueError the call raises ValueError.
\<close>

theorem allowed_transitions_permission_check_witness:
  "get_state db_draft doc = Inr (Some draft) \<and>
   publish \<in> set (transitions_all db_draft draft) \<and>
   t_permission publish = Some ''can_publish'' \<and>
   has_permission_method host_default doc ''bob'' ''can_publish'' = NoSuchAttribute \<and>
   \<not> utils_has_permission host_default (ObjectPermission_objects db_draft) doc ''bob'' ''can_publish'' \<and>
   get_allowed_transitions host_default db_draft doc ''bob'' = Inr [comment] \<and>
   publish \<notin> set [comment] \<and>
   has_permission_method host_own_fails doc ''alice'' ''can_publish'' = Raises ValueError \<and>
   get_allowed_transitions host_own_fails db_draft doc ''alice'' = Inl ValueError"
proof -
  have t: "publish \<in> set (transitions_all db_draft draft)"
    by (simp add: transitions_all_draft)
  have p: "t_permission publish = Some ''can_publish''"
    by (simp add: publish_def)
  have n: "has_permission_method host_default doc ''bob'' ''can_publish'' = NoSuchAttribute"
    "\<not> utils_has_permission host_default (ObjectPermission_objects db_draft) doc ''bob'' ''can_publish''"
    by (simp_all add: host_default_def)
  have r: "has_permission_method host_own_fails doc ''alice'' ''can_publish'' = Raises ValueError \<and>
      ValueError \<noteq> AttributeError"
    by (simp add: host_own_fails_def)
  have s: "transitions_all db_draft draft = [] @ publish # [comment, retract] \<and>
      (\<forall>x \<in> set []. \<forall>q e'. t_permission x = Some q \<and>
         has_permission_method host_own_fails doc ''alice'' q = Raises e' \<longrightarrow> e' = AttributeError)"
    by (simp add: transitions_all_draft)
  have f: "get_allowed_transitions host_own_fails db_draft doc ''alice'' = Inl ValueError"
    using allowed_transitions_permission_check [OF get_state_db_draft t p, of host_own_fails "''alice''"]
      r s by blast
  show ?thesis
    using allowed_transitions_permission_check [OF get_state_db_draft t p, of host_default "''bob''"]
      get_state_db_draft t p n allowed_bob r f
    by simp
qed

text \<open>
  C7 in the example: the guard of retract raises, and retract is not allowed.
\<close>

theorem allowed_transitions_guard_failure_witness:
  "get_state db_draft doc = Inr (Some draft) \<and>
   retract \<in> set (transitions_all db_draft draft) \<and>
   t_condition retract \<noteq> [] \<and>
   eval_condition host_default (t_condition retract) doc ''alice'' retract = EvalRaises AttributeError \<and>
   \<not> condition_met host_default doc ''alice'' retract \<and>
   get_allowed_transitions host_default db_draft doc ''alice'' = Inr [publish, comment] \<and>
   retract \<notin> set [publish, comment]"
proof -
  have t: "retract \<in> set (transitions_all db_draft draft)"
    by (simp add: transitions_all_draft)
  have c: "t_condition retract \<noteq> []"
    "eval_condition host_default (t_condition retract) doc ''alice'' retract = EvalRaises AttributeError"
    by (simp_all add: retract_def host_default_def)
  then have c': "t_condition retract \<noteq> [] \<and>
      (\<exists>e. eval_condition host_default (t_condition retract) doc ''alice'' retract = EvalRaises e)"
    by blast
  show ?thesis
    using allowed_transitions_guard_failure [OF get_state_db_draft t, of host_default "''alice''"]
      get_state_db_draft t c c' allowed_alice
    by simp
qed

text \<open>
  C10 in the example: the own check raises AttributeError and alice, who passes the default
  check, may publish.
\<close>

theorem allowed_transitions_attribute_error_fallback_witness:
  "get_state db_draft doc = Inr (Some draft) \<and>
   publish \<in> set (transitions_all db_draft draft) \<and>
   t_permission publish = Some ''can_publish'' \<and>
   has_permission_method host_own_raises doc ''alice'' ''can_publish'' = Raises AttributeError \<and>
   get_allowed_transitions host_own_raises db_draft doc ''alice'' = Inr [publish, comment] \<and>
   utils_has_permission host_own_raises (ObjectPermission_objects db_draft) doc ''alice'' ''can_publish'' \<and>
   condition_met host_own_raises doc ''alice'' publish"
proof -
  have t: "publish \<in> set (transitions_all db_draft draft)"
    by (simp add: transitions_all_draft)
  have p: "t_permission publish = Some ''can_publish''"
    by (simp add: publish_def)
  have r: "has_permission_method host_own_raises doc ''alice'' ''can_publish'' = Raises AttributeError"
    by (simp add: host_own_raises_def)
  show ?thesis
    using allowed_transitions_attribute_error_fallback [OF get_state_db_draft t p r]
      get_state_db_draft t p r allowed_alice_own_raises
    by simp
qed

subsection \<open>The state-change protocol\<close>

lemma create_history_fields [simp]:
  "StateObjectRelation_objects (create_history h ob s d) = StateObjectRelation_objects d"
  "WorkflowObjectRelation_objects (create_history h ob s d) = WorkflowObjectRelation_objects d"
  "WorkflowModelRelation_objects (create_history h ob s d) = WorkflowModelRelation_objects d"
  "ObjectPermission_objects (create_history h ob s d) = ObjectPermission_objects d"
  "signals_sent (create_history h ob s d) = signals_sent d"
  by (simp_all add: create_history_def)

lemma sor_of_update [simp]: "sor_of ob (r\<lparr>sor_state := s\<rparr>) = sor_of ob r"
  by (simp add: sor_of_def)

lemma filter_sor_update:
  "filter (sor_of ob) (map (\<lambda>r. if sor_of ob r then r\<lparr>sor_state := s\<rparr> else r) rows) =
   map (\<lambda>r. r\<lparr>sor_state := s\<rparr>) (filter (sor_of ob) rows)"
  by (induction rows) auto

lemma keys_sor_update:
  "map (\<lambda>r. (sor_content_type r, sor_content_id r))
     (map (\<lambda>r. if sor_of ob r then r\<lparr>sor_state := s\<rparr> else r) rows) =
   map (\<lambda>r. (sor_content_type r, sor_content_id r)) rows"
  by (induction rows) auto

lemma update_permissions_fields:
  "StateObjectRelation_objects (snd (update_permissions h d ob)) = StateObjectRelation_objects d"
  "WorkflowObjectRelation_objects (snd (update_permissions h d ob)) = WorkflowObjectRelation_objects d"
  "WorkflowModelRelation_objects (snd (update_permissions h d ob)) = WorkflowModelRelation_objects d"
  "StateObjectHistory_objects (snd (update_permissions h d ob)) = StateObjectHistory_objects d"
  "signals_sent (snd (update_permissions h d ob)) = signals_sent d"
  "State_objects (snd (update_permissions h d ob)) = State_objects d"
  "StatePermissionRelation_objects (snd (update_permissions h d ob)) = StatePermissionRelation_objects d"
  "WorkflowPermissionRelation_objects (snd (update_permissions h d ob)) = WorkflowPermissionRelation_objects d"
  "Role_objects (snd (update_permissions h d ob)) = Role_objects d"
  using update_permissions_frame [of h d ob] by auto

lemma set_state_existing:
  assumes "filter (sor_of ob) (StateObjectRelation_objects d) = [r]"
  shows "set_state h d ob (StateInstance s) =
    update_permissions h
      (send (After_state_change ob (Some (sor_state r)) (Some s))
        (create_history h ob s
          ((send (Before_state_change ob (Some (sor_state r)) (Some s)) d)
             \<lparr>StateObjectRelation_objects :=
                map (\<lambda>r. if sor_of ob r then r\<lparr>sor_state := s\<rparr> else r)
                  (StateObjectRelation_objects d)\<rparr>))) ob"
  using objects_get_single [OF assms]
  by (simp add: set_state_def resolve_state_def Let_def)

lemma set_state_new:
  assumes "filter (sor_of ob) (StateObjectRelation_objects d) = []"
  shows "set_state h d ob (StateInstance s) =
    update_permissions h
      (send (After_state_change ob None (Some s))
        (create_history h ob s
          ((send (Before_state_change ob None (Some s)) d)
             \<lparr>StateObjectRelation_objects := StateObjectRelation_objects d @
                [\<lparr>sor_content_type = obj_ctype ob, sor_content_id = obj_id ob, sor_state = s\<rparr>]\<rparr>))) ob"
  using objects_get_none [OF assms]
  by (simp add: set_state_def resolve_state_def Let_def)

lemma managed_cong:
  "WorkflowPermissionRelation_objects d' = WorkflowPermissionRelation_objects d \<Longrightarrow>
   managed d' w = managed d w"
  by (simp add: managed_def workflow_permissions_def split: option.splits)

lemma configured_cong:
  "StatePermissionRelation_objects d' = StatePermissionRelation_objects d \<Longrightarrow>
   configured d' s ob = configured d s ob"
  by (simp add: configured_def state_grants_def split: option.splits)

lemma get_state_single:
  "filter (sor_of ob) (StateObjectRelation_objects d) = [r] \<Longrightarrow> get_state d ob = Inr (Some (sor_state r))"
  by (simp add: get_state_def objects_get_single)

lemma set_state_after:
  assumes d4: "d4 = send (After_state_change ob s0 (Some s))
        (create_history h ob s
          ((send (Before_state_change ob s0 (Some s)) d)\<lparr>StateObjectRelation_objects := rows\<rparr>))"
    and w: "get_workflow d ob = Inr w"
    and rows: "filter (sor_of ob) rows = [r]" "sor_state r = s"
    and keys: "map (\<lambda>r. (sor_content_type r, sor_content_id r)) rows =
       (case s0 of
          Some x \<Rightarrow> map (\<lambda>r. (sor_content_type r, sor_content_id r)) (StateObjectRelation_objects d)
        | None \<Rightarrow> map (\<lambda>r. (sor_content_type r, sor_content_id r)) (StateObjectRelation_objects d)
                   @ [(obj_ctype ob, obj_id ob)])"
  shows "fst (update_permissions h d4 ob) = Inr () \<and>
         set_state_post d ob s0 w s (snd (update_permissions h d4 ob))"
proof -
  have f: "StateObjectRelation_objects d4 = rows"
    "WorkflowObjectRelation_objects d4 = WorkflowObjectRelation_objects d"
    "WorkflowModelRelation_objects d4 = WorkflowModelRelation_objects d"
    "State_objects d4 = State_objects d"
    "StatePermissionRelation_objects d4 = StatePermissionRelation_objects d"
    "WorkflowPermissionRelation_objects d4 = WorkflowPermissionRelation_objects d"
    "Role_objects d4 = Role_objects d"
    "ObjectPermission_objects d4 = ObjectPermission_objects d"
    "signals_sent d4 = signals_sent d @
       [Before_state_change ob s0 (Some s), After_state_change ob s0 (Some s)]"
    by (simp_all add: d4 send_def create_history_def)
  have w4: "get_workflow d4 ob = Inr w"
    using get_workflow_cong [of d4 d ob] f w by simp
  have s4: "get_state d4 ob = Inr (Some s)"
    using get_state_single [of ob d4 r] f rows by simp
  have m: "managed d4 w = managed d w"
    by (rule managed_cong) (simp add: f)
  have c: "configured d4 (Some s) ob = configured d (Some s) ob"
    by (rule configured_cong) (simp add: f)
  note eq = update_permissions_eq [OF w4 s4, of h]
  show ?thesis
    unfolding eq set_state_post_def
    by (simp add: f m c w4 s4 keys)
qed

lemma set_state_total:
  assumes s0: "get_state d ob = Inr s0" and w: "get_workflow d ob = Inr w"
  shows "fst (set_state h d ob (StateInstance s)) = Inr () \<and>
         set_state_post d ob s0 w s (snd (set_state h d ob (StateInstance s)))"
proof (cases s0)
  case None
  with s0 have e: "filter (sor_of ob) (StateObjectRelation_objects d) = []"
    by (simp add: get_state_None)
  have r: "filter (sor_of ob) (StateObjectRelation_objects d @
      [\<lparr>sor_content_type = obj_ctype ob, sor_content_id = obj_id ob, sor_state = s\<rparr>]) =
      [\<lparr>sor_content_type = obj_ctype ob, sor_content_id = obj_id ob, sor_state = s\<rparr>]"
    using e by (simp add: sor_of_def)
  show ?thesis
    unfolding set_state_new [OF e]
    using None by (intro set_state_after [OF _ w r]) simp_all
next
  case (Some x)
  with s0 obtain r where r: "filter (sor_of ob) (StateObjectRelation_objects d) = [r]" "sor_state r = x"
    using get_state_Some by blast
  have r': "filter (sor_of ob) (map (\<lambda>r. if sor_of ob r then r\<lparr>sor_state := s\<rparr> else r)
      (StateObjectRelation_objects d)) = [r\<lparr>sor_state := s\<rparr>]"
    by (simp add: filter_sor_update r)
  show ?thesis
    unfolding set_state_existing [OF r(1)]
    using Some r(2) by (intro set_state_after [OF _ w r']) (simp_all add: keys_sor_update)
qed

lemma set_state_Inr:
  assumes "fst (set_state h d ob (StateInstance s)) = Inr ()"
  shows "\<exists>s0 w. get_state d ob = Inr s0 \<and> get_workflow d ob = Inr w"
proof -
  have "\<exists>s0. get_state d ob = Inr s0"
  proof (cases "get_state d ob")
    case (Inl e)
    then have "\<exists>e. objects_get (sor_of ob) (StateObjectRelation_objects d) = Inl e \<and> e \<noteq> DoesNotExist"
      by (auto simp: get_state_def split: sum.splits if_splits)
    then have "\<exists>e. set_state h d ob (StateInstance s) = (Inl e, d)"
      by (auto simp: set_state_def resolve_state_def)
    with assms show ?thesis by auto
  next
    case (Inr s0)
    then show ?thesis by blast
  qed
  then obtain s0 where s0: "get_state d ob = Inr s0" ..
  have "\<exists>w. get_workflow d ob = Inr w"
  proof (cases "get_workflow d ob")
    case (Inl e)
    have "\<exists>d4. set_state h d ob (StateInstance s) = update_permissions h d4 ob \<and>
        get_workflow d4 ob = get_workflow d ob"
    proof (cases s0)
      case None
      with s0 have e: "filter (sor_of ob) (StateObjectRelation_objects d) = []"
        by (simp add: get_state_None)
      define d4 where "d4 = send (After_state_change ob None (Some s))
        (create_history h ob s
          ((send (Before_state_change ob None (Some s)) d)
             \<lparr>StateObjectRelation_objects := StateObjectRelation_objects d @
                [\<lparr>sor_content_type = obj_ctype ob, sor_content_id = obj_id ob, sor_state = s\<rparr>]\<rparr>))"
      have "set_state h d ob (StateInstance s) = update_permissions h d4 ob"
        unfolding d4_def by (rule set_state_new [OF e])
      moreover have "get_workflow d4 ob = get_workflow d ob"
        by (rule get_workflow_cong) (simp_all add: d4_def)
      ultimately show ?thesis by blast
    next
      case (Some x)
      with s0 obtain r where r: "filter (sor_of ob) (StateObjectRelation_objects d) = [r]"
        using get_state_Some by blast
      define d4 where "d4 = send (After_state_change ob (Some (sor_state r)) (Some s))
        (create_history h ob s
          ((send (Before_state_change ob (Some (sor_state r)) (Some s)) d)
             \<lparr>StateObjectRelation_objects :=
                map (\<lambda>r. if sor_of ob r then r\<lparr>sor_state := s\<rparr> else r)
                  (StateObjectRelation_objects d)\<rparr>))"
      have "set_state h d ob (StateInstance s) = update_permissions h d4 ob"
        unfolding d4_def by (rule set_state_existing [OF r])
      moreover have "get_workflow d4 ob = get_workflow d ob"
        by (rule get_workflow_cong) (simp_all add: d4_def)
      ultimately show ?thesis by blast
    qed
    then obtain d4 where "set_state h d ob (StateInstance s) = update_permissions h d4 ob"
      "get_workflow d4 ob = Inl e" using Inl by auto
    then have "fst (set_state h d ob (StateInstance s)) = Inl e"
      by (simp add: update_permissions_def)
    with assms show ?thesis by simp
  next
    case (Inr w)
    then show ?thesis by blast
  qed
  with s0 show ?thesis by blast
qed

subsection \<open>At most one state per object\<close>

lemma sor_unique_cong:
  "StateObjectRelation_objects d' = StateObjectRelation_objects d \<Longrightarrow> sor_unique d' = sor_unique d"
  by (simp add: sor_unique_def)

lemma set_state_resolved:
  "resolve_state d a = Inr (Some s) \<Longrightarrow> set_state h d ob a = set_state h d ob (StateInstance s)"
  by (simp add: set_state_def resolve_state_def)

lemma set_state_sor_instance:
  "StateObjectRelation_objects (snd (set_state h d ob (StateInstance s))) = StateObjectRelation_objects d \<or>
   (\<exists>r. filter (sor_of ob) (StateObjectRelation_objects d) = [r] \<and>
      StateObjectRelation_objects (snd (set_state h d ob (StateInstance s))) =
        map (\<lambda>r. if sor_of ob r then r\<lparr>sor_state := s\<rparr> else r) (StateObjectRelation_objects d)) \<or>
   (filter (sor_of ob) (StateObjectRelation_objects d) = [] \<and>
      StateObjectRelation_objects (snd (set_state h d ob (StateInstance s))) =
        StateObjectRelation_objects d @
          [\<lparr>sor_content_type = obj_ctype ob, sor_content_id = obj_id ob, sor_state = s\<rparr>])"
proof (cases "objects_get (sor_of ob) (StateObjectRelation_objects d)")
  case (Inl e)
  show ?thesis
  proof (cases "e = DoesNotExist")
    case True
    with Inl have e: "filter (sor_of ob) (StateObjectRelation_objects d) = []"
      by (auto dest: objects_get_Inl)
    show ?thesis
      unfolding set_state_new [OF e] using e
      by (simp add: update_permissions_fields)
  next
    case False
    with Inl have "set_state h d ob (StateInstance s) = (Inl e, d)"
      by (simp add: set_state_def resolve_state_def)
    then show ?thesis by simp
  qed
next
  case (Inr r)
  then have r: "filter (sor_of ob) (StateObjectRelation_objects d) = [r]"
    by (rule objects_get_Inr)
  show ?thesis
    unfolding set_state_existing [OF r] using r
    by (simp add: update_permissions_fields)
qed

lemma set_state_sor_other:
  assumes "resolve_state d a \<noteq> Inr (Some s)" and "\<forall>s. resolve_state d a \<noteq> Inr (Some s)"
  shows "StateObjectRelation_objects (snd (set_state h d ob a)) = StateObjectRelation_objects d"
proof (cases "resolve_state d a")
  case (Inl e)
  then show ?thesis by (simp add: set_state_def)
next
  case (Inr x)
  with assms(2) have x: "x = None" by (cases x) auto
  show ?thesis
  proof (cases "objects_get (sor_of ob) (StateObjectRelation_objects d)")
    case (Inl e)
    then show ?thesis using Inr x by (simp add: set_state_def Let_def)
  next
    case r: (Inr r)
    then show ?thesis using Inr x by (simp add: set_state_def Let_def)
  qed
qed

lemma distinct_keys_append:
  assumes "distinct (map (\<lambda>r. (sor_content_type r, sor_content_id r)) rows)"
    and "filter (sor_of ob) rows = []"
  shows "distinct (map (\<lambda>r. (sor_content_type r, sor_content_id r))
           (rows @ [\<lparr>sor_content_type = obj_ctype ob, sor_content_id = obj_id ob, sor_state = s\<rparr>]))"
proof -
  have "(obj_ctype ob, obj_id ob) \<notin> (\<lambda>r. (sor_content_type r, sor_content_id r)) ` set rows"
    using assms(2) by (auto simp: filter_empty_conv sor_of_def)
  with assms(1) show ?thesis by simp
qed

lemma set_state_sor_unique:
  assumes "sor_unique d"
  shows "sor_unique (snd (set_state h d ob a))"
proof (cases "\<exists>s. resolve_state d a = Inr (Some s)")
  case True
  then obtain s where s: "resolve_state d a = Inr (Some s)" ..
  show ?thesis
    unfolding set_state_resolved [OF s]
    using set_state_sor_instance [of h d ob s] assms
    by (auto simp: sor_unique_def keys_sor_update distinct_keys_append simp del: map_append map_map)
next
  case False
  then have "StateObjectRelation_objects (snd (set_state h d ob a)) = StateObjectRelation_objects d"
    by (intro set_state_sor_other) auto
  with assms show ?thesis by (simp add: sor_unique_def)
qed

lemma set_state_in_place:
  assumes "get_state d ob = Inr (Some s0)"
  shows "map (\<lambda>r. (sor_content_type r, sor_content_id r))
           (StateObjectRelation_objects (snd (set_state h d ob a))) =
         map (\<lambda>r. (sor_content_type r, sor_content_id r)) (StateObjectRelation_objects d)"
proof (cases "\<exists>s. resolve_state d a = Inr (Some s)")
  case True
  then obtain s where s: "resolve_state d a = Inr (Some s)" ..
  from assms obtain r where "filter (sor_of ob) (StateObjectRelation_objects d) = [r]"
    using get_state_Some by blast
  then show ?thesis
    unfolding set_state_resolved [OF s]
    using set_state_sor_instance [of h d ob s]
    by (auto simp: keys_sor_update simp del: map_map)
next
  case False
  then have "StateObjectRelation_objects (snd (set_state h d ob a)) = StateObjectRelation_objects d"
    by (intro set_state_sor_other) auto
  then show ?thesis by simp
qed

lemma set_initial_state_sor_unique:
  assumes "sor_unique d"
  shows "sor_unique (snd (set_initial_state h d ob))"
proof (cases "get_workflow d ob")
  case (Inl e)
  then show ?thesis using assms by (simp add: set_initial_state_def)
next
  case (Inr w)
  show ?thesis
  proof (cases w)
    case None
    then show ?thesis using Inr assms by (simp add: set_initial_state_def)
  next
    case (Some x)
    then show ?thesis using Inr set_state_sor_unique [OF assms]
      by (simp add: set_initial_state_def)
  qed
qed

lemma set_to_object_sor_unique:
  assumes "sor_unique d"
  shows "sor_unique (snd (set_to_object h d self ob))"
proof -
  have u: "\<And>x. sor_unique (d\<lparr>WorkflowObjectRelation_objects := x\<rparr>)"
    using assms by (simp add: sor_unique_def)
  show ?thesis
  proof (cases "objects_get (wor_of ob) (WorkflowObjectRelation_objects d)")
    case (Inl e)
    then show ?thesis
      using assms set_state_sor_unique [OF u] by (simp add: set_to_object_def)
  next
    case (Inr wor)
    then show ?thesis
      using assms set_state_sor_unique [OF u] by (simp add: set_to_object_def)
  qed
qed

lemma set_to_model_sor_unique:
  assumes "sor_unique d"
  shows "sor_unique (snd (set_to_model d self ctype))"
proof (cases "objects_get (\<lambda>r. wmr_content_type r = ctype) (WorkflowModelRelation_objects d)")
  case (Inl e)
  then show ?thesis using assms by (simp add: set_to_model_def sor_unique_def)
next
  case (Inr wor)
  then show ?thesis using assms by (simp add: set_to_model_def sor_unique_def)
qed

lemma set_workflow_sor_unique:
  "sor_unique d \<Longrightarrow> sor_unique (snd (set_workflow h d x w))"
  by (cases x) (simp_all add: set_workflow_def set_to_def set_to_model_sor_unique set_to_object_sor_unique)

lemma sor_unique_send [simp]: "sor_unique (send sig d) = sor_unique d"
  by (simp add: sor_unique_def)

lemma do_transition_sor_unique:
  assumes "sor_unique d"
  shows "sor_unique (snd (do_transition h d ob ta usr))"
proof (cases "resolve_transition d ta")
  case (Inl e)
  then show ?thesis using assms by (simp add: do_transition_def)
next
  case t: (Inr t)
  show ?thesis
  proof (cases "get_allowed_transitions h d ob usr")
    case (Inl e)
    then show ?thesis using t assms by (simp add: do_transition_def)
  next
    case ts: (Inr ts)
    show ?thesis
    proof (cases "transition_in t ts")
      case False
      then show ?thesis using t ts assms by (simp add: do_transition_def)
    next
      case True
      show ?thesis
      proof (cases "get_state d ob")
        case (Inl e)
        then show ?thesis using t ts True assms by (simp add: do_transition_def)
      next
        case (Inr cur)
        define d1 where "d1 = send (Before_transition ob cur t usr) d"
        define r where "r = (case t_destination t of
                 None \<Rightarrow> (Inr (), d1)
               | Some dest \<Rightarrow>
                   if Some (s_id dest) \<noteq> map_option s_id cur
                   then set_state h d1 ob (StateInstance dest)
                   else (Inr (), d1))"
        have d1: "sor_unique d1" using assms by (simp add: d1_def)
        have r: "sor_unique (snd r)"
          unfolding r_def using d1 set_state_sor_unique [OF d1]
          by (simp split: option.splits)
        have "do_transition h d ob ta usr =
            (case fst r of
               Inl e \<Rightarrow> (Inl e, snd r)
             | Inr u \<Rightarrow> (Inr True, send (After_transition ob cur t usr) (snd r)))"
          unfolding r_def d1_def
          using t ts True Inr by (simp add: do_transition_def Let_def)
        then show ?thesis using r by (simp split: sum.splits)
      qed
    qed
  qed
qed

lemma sor_unique_filter:
  "sor_unique d \<Longrightarrow>
   sor_unique (d\<lparr>StateObjectRelation_objects := filter P (StateObjectRelation_objects d),
               ObjectPermission_objects := G\<rparr>)"
  by (simp add: sor_unique_def distinct_map_filter)

lemma remove_loop_sor_unique:
  "sor_unique d \<Longrightarrow> sor_unique (snd (remove_loop ctype objs d))"
proof (induction ctype objs d rule: remove_loop.induct)
  case (1 ctype d)
  then show ?case by simp
next
  case (2 ctype rest d)
  then show ?case by simp
next
  case (3 ctype ob rest d)
  show ?case
  proof (cases "ctype \<noteq> obj_ctype ob")
    case True
    then show ?thesis using 3 by simp
  next
    case False
    show ?thesis
    proof (cases "objects_get (sor_of ob) (StateObjectRelation_objects d)")
      case (Inl e)
      have "sor_unique (d\<lparr>ObjectPermission_objects := reset ob (ObjectPermission_objects d)\<rparr>)"
        using "3.prems" by (simp add: sor_unique_def)
      then show ?thesis using False Inl 3 by simp
    next
      case (Inr sor)
      have "sor_unique (d\<lparr>StateObjectRelation_objects :=
                    filter (\<lambda>r. \<not> sor_of ob r) (StateObjectRelation_objects d),
                  ObjectPermission_objects := reset ob (ObjectPermission_objects d)\<rparr>)"
        using "3.prems" by (rule sor_unique_filter)
      then show ?thesis using False Inr 3 by simp
    qed
  qed
qed

lemma remove_workflow_from_model_sor_unique:
  assumes "sor_unique d"
  shows "sor_unique (snd (remove_workflow_from_model d ctype))"
proof (cases "get_workflow_for_model d ctype")
  case (Inl e)
  then show ?thesis using assms by (simp add: remove_workflow_from_model_def)
next
  case w: (Inr w)
  show ?thesis
  proof (cases "get_objects_for_workflow d w")
    case (Inl e)
    then show ?thesis using w assms by (simp add: remove_workflow_from_model_def)
  next
    case (Inr objs)
    obtain res d1 where l: "remove_loop ctype objs d = (res, d1)" by (cases "remove_loop ctype objs d")
    with remove_loop_sor_unique [OF assms, of ctype objs] have d1: "sor_unique d1" by simp
    have u: "\<And>x. sor_unique (d1\<lparr>WorkflowModelRelation_objects := x\<rparr>)"
      using d1 by (simp add: sor_unique_def)
    show ?thesis
      using w Inr l d1 u
      by (simp add: remove_workflow_from_model_def split: sum.splits)
  qed
qed

lemma remove_workflow_from_object_sor_unique:
  assumes "sor_unique d"
  shows "sor_unique (snd (remove_workflow_from_object h d ob))"
proof -
  have u: "\<And>x G. sor_unique (d\<lparr>WorkflowObjectRelation_objects := x, ObjectPermission_objects := G\<rparr>)"
    "\<And>G. sor_unique (d\<lparr>ObjectPermission_objects := G\<rparr>)"
    using assms by (simp_all add: sor_unique_def)
  show ?thesis
    unfolding remove_workflow_from_object_def
    using assms set_initial_state_sor_unique [OF u(1)] set_initial_state_sor_unique [OF u(2)]
    by (simp split: sum.splits)
qed

text \<open>
  C9. Starting from a database with at most one StateObjectRelation per object, each of
  \<open>set_state\<close>, \<open>set_workflow\<close>, \<open>do_transition\<close> and \<open>remove_workflow\<close> (for an
  object and for a content type, with any arguments and whether it returns or raises)
  leaves a database with at most one StateObjectRelation per object; and \<open>set_state\<close> on
  an object that has a state keeps the rows of the table in place, each for the object it
  was for: it creates no second row.
\<close>

theorem state_binding_unique:
  assumes "sor_unique d"
  shows "sor_unique (snd (set_state h d ob a)) \<and>
         sor_unique (snd (set_workflow h d x w)) \<and>
         sor_unique (snd (do_transition h d ob ta usr)) \<and>
         sor_unique (snd (remove_workflow h d x)) \<and>
         (\<forall>s0. get_state d ob = Inr (Some s0) \<longrightarrow>
            map (\<lambda>r. (sor_content_type r, sor_content_id r))
              (StateObjectRelation_objects (snd (set_state h d ob a))) =
            map (\<lambda>r. (sor_content_type r, sor_content_id r)) (StateObjectRelation_objects d))"
proof -
  have "sor_unique (snd (remove_workflow h d x))"
    using assms
    by (cases x)
      (simp_all add: remove_workflow_def remove_workflow_from_model_sor_unique
        remove_workflow_from_object_sor_unique)
  then show ?thesis
    using assms set_state_sor_unique set_workflow_sor_unique do_transition_sor_unique
      set_state_in_place by blast
qed

text \<open>
  C9 in the example.
\<close>

theorem state_binding_unique_witness:
  "sor_unique db_bound \<and>
   get_state db_bound doc = Inr (Some published) \<and>
   sor_unique (snd (set_state host_default db_bound doc (StateInstance draft))) \<and>
   sor_unique (snd (set_workflow host_default db_bound (Instance doc) plain)) \<and>
   sor_unique (snd (do_transition host_default db_bound doc (TransitionCodename ''publish'') ''alice'')) \<and>
   sor_unique (snd (remove_workflow host_default db_bound (Instance doc))) \<and>
   map (\<lambda>r. (sor_content_type r, sor_content_id r))
     (StateObjectRelation_objects (snd (set_state host_default db_bound doc (StateInstance draft)))) =
   [(1, 2), (1, 5), (1, 7)]"
proof -
  have u: "sor_unique db_bound"
    by (simp add: db_bound_def db_config_def sor_unique_def)
  have s: "get_state db_bound doc = Inr (Some published)"
    by (simp add: db_bound_def db_config_def doc_def get_state_def objects_get_def sor_of_def)
  have k: "map (\<lambda>r. (sor_content_type r, sor_content_id r)) (StateObjectRelation_objects db_bound) =
      [(1, 2), (1, 5), (1, 7)]"
    by (simp add: db_bound_def db_config_def)
  show ?thesis
    using state_binding_unique [OF u, of host_default doc "StateInstance draft" "Instance doc" plain
        "TransitionCodename ''publish''" "''alice''"] u s k
    by simp
qed

subsection \<open>Removing the workflow of an object\<close>

lemma reset_simps:
  "reset ob {} = {}"
  "reset ob (insert g G) = (if fst g = ob then reset ob G else insert g (reset ob G))"
  by (auto simp: reset_def)

lemma remove_permission_simps:
  "remove_permission ob roles perms {} = {}"
  "remove_permission ob roles perms (insert g G) =
     (if fst g = ob \<and> fst (snd g) \<in> set roles \<and> snd (snd g) \<in> set perms
      then remove_permission ob roles perms G
      else insert g (remove_permission ob roles perms G))"
  by (auto simp: remove_permission_def)

lemmas eval_defs = remove_workflow_def remove_workflow_from_object_def set_initial_state_def
  set_state_def resolve_state_def state_arg_of_def create_history_def send_def update_permissions_def
  get_workflow_def get_workflow_for_object_def get_workflow_for_model_def get_state_def
  get_initial_state_def states_all_def objects_get_def wor_of_def sor_of_def
  remove_permission_simps grant_permission_def reset_simps

lemma get_initial_state_cong:
  "State_objects d' = State_objects d \<Longrightarrow> get_initial_state d' w = get_initial_state d w"
  by (simp add: get_initial_state_def states_all_def split: option.splits)

lemma state_grants_cong:
  "StatePermissionRelation_objects d' = StatePermissionRelation_objects d \<Longrightarrow>
   state_grants d' s ob = state_grants d s ob"
  by (simp add: state_grants_def)

lemma set_state_StateNone: "fst (set_state h d ob StateNone) \<noteq> Inr ()"
proof (cases "objects_get (sor_of ob) (StateObjectRelation_objects d)")
  case (Inl e)
  then show ?thesis by (simp add: set_state_def resolve_state_def Let_def)
next
  case (Inr r)
  then show ?thesis by (simp add: set_state_def resolve_state_def Let_def)
qed

lemma set_initial_state_post:
  assumes "set_initial_state h d ob = (Inr (), d')"
  shows "(get_workflow d ob = Inr None \<and> d' = d) \<or>
    (\<exists>w s s0. get_workflow d ob = Inr (Some w) \<and> get_initial_state d w = Some s \<and>
       get_state d ob = Inr s0 \<and> set_state_post d ob s0 (Some w) s d')"
proof (cases "get_workflow d ob")
  case (Inl e)
  with assms show ?thesis by (simp add: set_initial_state_def)
next
  case (Inr wo)
  show ?thesis
  proof (cases wo)
    case None
    with assms Inr show ?thesis by (simp add: set_initial_state_def)
  next
    case (Some w)
    with Inr have w: "get_workflow d ob = Inr (Some w)" by simp
    then have eq: "set_state h d ob (state_arg_of (get_initial_state d w)) = (Inr (), d')"
      using assms by (simp add: set_initial_state_def)
    show ?thesis
    proof (cases "get_initial_state d w")
      case None
      with eq set_state_StateNone [of h d ob] show ?thesis
        by (simp add: state_arg_of_def)
    next
      case s: (Some s)
      with eq have e: "set_state h d ob (StateInstance s) = (Inr (), d')"
        by (simp add: state_arg_of_def)
      then have "fst (set_state h d ob (StateInstance s)) = Inr ()" by simp
      from set_state_Inr [OF this] w obtain s0 where s0: "get_state d ob = Inr s0" by blast
      from set_state_total [OF s0 w, of h s] e have "set_state_post d ob s0 (Some w) s d'"
        by simp
      with w s s0 show ?thesis by blast
    qed
  qed
qed

lemma grants_on_reset: "{g \<in> reset ob G. fst g = ob} = {}"
  by (auto simp: reset_def)

lemma grants_on_reset_other: "o' \<noteq> ob \<Longrightarrow> {g \<in> reset ob G. fst g = o'} = {g \<in> G. fst g = o'}"
  by (auto simp: reset_def)

lemma fst_state_grants: "g \<in> state_grants d s ob \<Longrightarrow> fst g = ob"
  by (auto simp: state_grants_def)

text \<open>
  What \<open>remove_workflow\<close> on an object has done when it returns normally: all the grants
  the object held have been revoked by a full reset, and then, if the object resolves to no
  workflow afterwards, it holds no grant; if it still resolves to a workflow, its state is
  the initial state of that workflow and its grants are exactly the grants configured for
  that state. The grants of other objects are as before.
\<close>

lemma remove_workflow_resets:
  assumes "remove_workflow h d (Instance ob) = (Inr (), d')"
  shows "((get_workflow d' ob = Inr None \<and> grants_on d' ob = {}) \<or>
          (\<exists>w s. get_workflow d' ob = Inr (Some w) \<and> get_initial_state d' w = Some s \<and>
             get_state d' ob = Inr (Some s) \<and> grants_on d' ob = state_grants d' s ob)) \<and>
         (\<forall>o'. o' \<noteq> ob \<longrightarrow> grants_on d' o' = grants_on d o')"
proof -
  from assms obtain d1 where d1: "set_initial_state h d1 ob = (Inr (), d')"
    and G1: "ObjectPermission_objects d1 = reset ob (ObjectPermission_objects d)"
    by (auto simp: remove_workflow_def remove_workflow_from_object_def
        split: sum.splits if_splits)
  from set_initial_state_post [OF d1] show ?thesis
  proof (elim disjE conjE exE)
    assume "get_workflow d1 ob = Inr None" "d' = d1"
    then show ?thesis
      using G1 by (simp add: grants_on_def grants_on_reset grants_on_reset_other)
  next
    fix w s s0
    assume w: "get_workflow d1 ob = Inr (Some w)" and s: "get_initial_state d1 w = Some s"
      and p: "set_state_post d1 ob s0 (Some w) s d'"
    from p have G: "ObjectPermission_objects d' =
       {g \<in> reset ob (ObjectPermission_objects d).
          \<not> (fst g = ob \<and> fst (snd g) \<in> set (Role_objects d1) \<and> snd (snd g) \<in> managed d1 (Some w))}
       \<union> state_grants d1 s ob"
      by (simp add: set_state_post_def G1 configured_def)
    from p have f: "State_objects d' = State_objects d1"
      "StatePermissionRelation_objects d' = StatePermissionRelation_objects d1"
      "get_state d' ob = Inr (Some s)" "get_workflow d' ob = Inr (Some w)"
      by (simp_all add: set_state_post_def)
    have i: "get_initial_state d' w = Some s"
      using get_initial_state_cong [OF f(1)] s by simp
    have sg: "state_grants d' s ob = state_grants d1 s ob"
      by (rule state_grants_cong [OF f(2)])
    have "grants_on d' ob = state_grants d1 s ob"
      unfolding grants_on_def G using fst_state_grants [of _ d1 s ob]
      by (auto simp: reset_def)
    moreover have "\<forall>o'. o' \<noteq> ob \<longrightarrow> grants_on d' o' = grants_on d o'"
      unfolding grants_on_def G using fst_state_grants [of _ d1 s ob]
      by (auto simp: reset_def)
    ultimately show ?thesis
      using f(3,4) i sg by auto
  qed
qed

lemma card_removed:
  "remove_workflow host_default db_typed (Instance card) = (Inr (), db_card_removed)"
  by (simp add: db_card_removed_def eval_defs example_defs Let_def)

lemma doc_removed:
  "remove_workflow host_default db_typed (Instance doc) = (Inr (), db_doc_removed)"
  by (simp add: db_doc_removed_def eval_defs example_defs Let_def)

text \<open>
  The lookup of the relation of the object, made with the object in the place of its
  content type: an ORM that checks the type raises, and nothing is done; an ORM that
  compares primary keys finds no row unless a relation has a content type whose id is the
  id of the object, and then the relation of the object is still there afterwards.
\<close>

lemma remove_workflow_from_object_type_checked:
  "fk_lookup_checks_type h \<Longrightarrow> remove_workflow_from_object h d ob = (Inl ValueError, d)"
  by (simp add: remove_workflow_from_object_def)

lemma set_initial_state_wor:
  "WorkflowObjectRelation_objects (snd (set_initial_state h d ob)) = WorkflowObjectRelation_objects d"
proof (cases "get_workflow d ob")
  case (Inl e)
  then show ?thesis by (simp add: set_initial_state_def)
next
  case (Inr wo)
  show ?thesis
  proof (cases wo)
    case None
    then show ?thesis using Inr by (simp add: set_initial_state_def)
  next
    case (Some w)
    have "WorkflowObjectRelation_objects (snd (set_state h d ob a)) = WorkflowObjectRelation_objects d" for a
    proof (cases "resolve_state d a")
      case (Inl e)
      then show ?thesis by (simp add: set_state_def)
    next
      case r: (Inr so)
      show ?thesis
      proof (cases "objects_get (sor_of ob) (StateObjectRelation_objects d)")
        case (Inl e)
        then show ?thesis using r
          by (cases so) (simp_all add: set_state_def Let_def update_permissions_fields)
      next
        case (Inr sor)
        then show ?thesis using r
          by (cases so) (simp_all add: set_state_def Let_def update_permissions_fields)
      qed
    qed
    then show ?thesis using Inr Some by (simp add: set_initial_state_def)
  qed
qed

lemma remove_workflow_from_object_binding_survives:
  assumes "\<not> fk_lookup_checks_type h"
    and "\<forall>r \<in> set (WorkflowObjectRelation_objects d). wor_content_type r \<noteq> obj_id ob"
  shows "WorkflowObjectRelation_objects (snd (remove_workflow_from_object h d ob)) =
         WorkflowObjectRelation_objects d"
proof -
  from assms(2) have "filter (\<lambda>r. wor_content_type r = obj_id ob) (WorkflowObjectRelation_objects d) = []"
    by (simp add: filter_empty_conv)
  then have "objects_get (\<lambda>r. wor_content_type r = obj_id ob) (WorkflowObjectRelation_objects d) =
      Inl DoesNotExist"
    by (rule objects_get_none)
  then have "remove_workflow_from_object h d ob =
      set_initial_state h (d\<lparr>ObjectPermission_objects := reset ob (ObjectPermission_objects d)\<rparr>) ob"
    using assms(1) by (simp add: remove_workflow_from_object_def)
  then show ?thesis by (simp add: set_initial_state_wor)
qed

lemma leaf_removed:
  "remove_workflow host_default db_stale (Instance leaf) = (Inr (), db_leaf_removed)"
  by (simp add: db_leaf_removed_def db_stale_def leaf_def eval_defs example_defs Let_def)

text \<open>
  C2. The claim is that \<open>remove_workflow\<close> on an object with a workflow of its own deletes
  that relation and the StateObjectRelation of the object, so that the object has no
  state afterwards and holds none of the permissions its workflow is responsible for.
  \<open>remove_workflow_from_object\<close> looks the relation up with the object in the place of
  its content type, and it has no statement that deletes the StateObjectRelation. For the
  object doc, which has the workflow review, the state published, and no workflow on its
  content type: with an ORM that compares primary keys the lookup finds nothing, doc keeps
  the workflow review and ends in its initial state draft with the grant of that state on
  a permission review is responsible for; with an ORM that checks the type the call raises
  and changes nothing. For the object leaf, whose id is the id of its content type, the
  relation is found and deleted, and leaf is left without a workflow and still in the
  state published.
\<close>

theorem remove_workflow_keeps_binding:
  "get_workflow_for_object db_typed doc = Inr (Some review) \<and>
   get_workflow_for_model db_typed (obj_ctype doc) = Inr None \<and>
   get_state db_typed doc = Inr (Some published) \<and>
   remove_workflow host_default db_typed (Instance doc) = (Inr (), db_doc_removed) \<and>
   get_workflow_for_object db_doc_removed doc = Inr (Some review) \<and>
   get_state db_doc_removed doc = Inr (Some draft) \<and>
   ''can_edit'' \<in> workflow_permissions db_doc_removed review \<and>
   (doc, ''owner'', ''can_edit'') \<in> ObjectPermission_objects db_doc_removed \<and>
   remove_workflow host_strict db_typed (Instance doc) = (Inl ValueError, db_typed) \<and>
   get_workflow_for_object db_stale leaf = Inr (Some review) \<and>
   get_state db_stale leaf = Inr (Some published) \<and>
   remove_workflow host_default db_stale (Instance leaf) = (Inr (), db_leaf_removed) \<and>
   get_workflow db_leaf_removed leaf = Inr None \<and>
   get_state db_leaf_removed leaf = Inr (Some published)"
proof -
  have "get_workflow_for_object db_typed doc = Inr (Some review)"
    "get_workflow_for_model db_typed (obj_ctype doc) = Inr None"
    "get_state db_typed doc = Inr (Some published)"
    by (simp_all add: get_workflow_for_object_def get_workflow_for_model_def get_state_def
        objects_get_def wor_of_def sor_of_def example_defs)
  moreover have "get_workflow_for_object db_doc_removed doc = Inr (Some review)"
    "get_state db_doc_removed doc = Inr (Some draft)"
    "''can_edit'' \<in> workflow_permissions db_doc_removed review"
    "(doc, ''owner'', ''can_edit'') \<in> ObjectPermission_objects db_doc_removed"
    by (simp_all add: db_doc_removed_def get_workflow_for_object_def get_state_def objects_get_def
        workflow_permissions_def wor_of_def sor_of_def example_defs)
  moreover have "remove_workflow host_strict db_typed (Instance doc) = (Inl ValueError, db_typed)"
    by (simp add: remove_workflow_def remove_workflow_from_object_def host_strict_def host_default_def)
  moreover have "get_workflow_for_object db_stale leaf = Inr (Some review)"
    "get_state db_stale leaf = Inr (Some published)"
    by (simp_all add: db_stale_def leaf_def get_workflow_for_object_def get_state_def objects_get_def
        wor_of_def sor_of_def example_defs)
  moreover have "get_workflow db_leaf_removed leaf = Inr None"
    "get_state db_leaf_removed leaf = Inr (Some published)"
    by (simp_all add: db_leaf_removed_def db_stale_def leaf_def get_workflow_def
        get_workflow_for_object_def get_workflow_for_model_def get_state_def objects_get_def
        wor_of_def sor_of_def example_defs)
  ultimately show ?thesis
    using doc_removed leaf_removed by simp
qed

text \<open>
  The object card of the example, whose content type has the workflow review and whose
  id is the id of its content type: its own workflow is removed and it is put in the
  initial state of review.
\<close>

lemma remove_workflow_resets_card:
  "remove_workflow host_default db_typed (Instance card) = (Inr (), db_card_removed) \<and>
   get_workflow db_card_removed card = Inr (Some review) \<and>
   get_initial_state db_card_removed review = Some draft \<and>
   get_state db_card_removed card = Inr (Some draft) \<and>
   grants_on db_card_removed card = state_grants db_card_removed draft card \<and>
   grants_on db_card_removed doc = grants_on db_typed doc"
proof -
  have w: "get_workflow db_card_removed card = Inr (Some review)"
    by (simp add: db_card_removed_def get_workflow_def get_workflow_for_object_def
        get_workflow_for_model_def objects_get_def wor_of_def example_defs)
  have i: "get_initial_state db_card_removed review = Some draft"
    by (simp add: get_initial_state_def review_def)
  have n: "doc \<noteq> card"
    by (simp add: doc_def card_def)
  show ?thesis
    using remove_workflow_resets [OF card_removed] card_removed w i n by auto
qed

subsection \<open>Assigning a workflow to an object\<close>

lemma wor_of_update [simp]: "wor_of ob (r\<lparr>wor_workflow := w\<rparr>) = wor_of ob r"
  by (simp add: wor_of_def)

lemma filter_wor_update:
  "filter (wor_of ob) (map (\<lambda>r. if wor_of ob r then r\<lparr>wor_workflow := w\<rparr> else r) rows) =
   map (\<lambda>r. r\<lparr>wor_workflow := w\<rparr>) (filter (wor_of ob) rows)"
  by (induction rows) auto

lemma get_workflow_for_object_single:
  "filter (wor_of ob) (WorkflowObjectRelation_objects d) = [r] \<Longrightarrow>
   get_workflow_for_object d ob = Inr (Some (wor_workflow r))"
  by (simp add: get_workflow_for_object_def objects_get_single)

lemma get_workflow_own:
  "get_workflow_for_object d ob = Inr (Some w) \<Longrightarrow> get_workflow d ob = Inr (Some w)"
  by (simp add: get_workflow_def)

text \<open>
  What \<open>Workflow.set_to_object\<close> does for a workflow with an explicit initial state, on an
  object that has another workflow of its own or none, in the state \<open>s0\<close> or in none:
  the object gets the workflow, its state becomes the initial state, and
  \<open>before_state_change\<close> and \<open>after_state_change\<close> are sent with \<open>from_state = s0\<close>.
\<close>

lemma set_to_object_reassigns:
  assumes i: "w_initial_state self = Some s"
    and w0: "get_workflow_for_object d ob = Inr w0"
    and ne: "map_option w_id w0 \<noteq> Some (w_id self)"
    and s0: "get_state d ob = Inr s0"
  shows "fst (set_to_object h d self ob) = Inr () \<and>
    get_workflow_for_object (snd (set_to_object h d self ob)) ob = Inr (Some self) \<and>
    get_state (snd (set_to_object h d self ob)) ob = Inr (Some s) \<and>
    signals_sent (snd (set_to_object h d self ob)) = signals_sent d @
      [Before_state_change ob s0 (Some s), After_state_change ob s0 (Some s)]"
proof -
  have "\<exists>rows. set_to_object h d self ob =
      set_state h (d\<lparr>WorkflowObjectRelation_objects := rows\<rparr>) ob (StateInstance s) \<and>
      (\<exists>r. filter (wor_of ob) rows = [r] \<and> wor_workflow r = self)"
  proof (cases w0)
    case None
    with w0 have e: "filter (wor_of ob) (WorkflowObjectRelation_objects d) = []"
      by (auto simp: get_workflow_for_object_def split: sum.splits if_splits dest: objects_get_Inl)
    have "filter (wor_of ob) (WorkflowObjectRelation_objects d @
        [\<lparr>wor_content_type = obj_ctype ob, wor_content_id = obj_id ob, wor_workflow = self\<rparr>]) =
        [\<lparr>wor_content_type = obj_ctype ob, wor_content_id = obj_id ob, wor_workflow = self\<rparr>]"
      using e by (simp add: wor_of_def)
    moreover have "set_to_object h d self ob =
      set_state h (d\<lparr>WorkflowObjectRelation_objects := WorkflowObjectRelation_objects d @
        [\<lparr>wor_content_type = obj_ctype ob, wor_content_id = obj_id ob, wor_workflow = self\<rparr>]\<rparr>)
        ob (StateInstance s)"
      using objects_get_none [OF e] i by (simp add: set_to_object_def state_arg_of_def)
    ultimately show ?thesis by force
  next
    case (Some x)
    with w0 obtain r where r: "filter (wor_of ob) (WorkflowObjectRelation_objects d) = [r]"
      "wor_workflow r = x"
      by (auto simp: get_workflow_for_object_def split: sum.splits if_splits dest: objects_get_Inr)
    have "filter (wor_of ob) (map (\<lambda>r. if wor_of ob r then r\<lparr>wor_workflow := self\<rparr> else r)
        (WorkflowObjectRelation_objects d)) = [r\<lparr>wor_workflow := self\<rparr>]"
      by (simp add: filter_wor_update r)
    moreover have "set_to_object h d self ob =
      set_state h (d\<lparr>WorkflowObjectRelation_objects :=
        map (\<lambda>r. if wor_of ob r then r\<lparr>wor_workflow := self\<rparr> else r)
          (WorkflowObjectRelation_objects d)\<rparr>) ob (StateInstance s)"
      using objects_get_single [OF r(1)] r(2) i ne Some
      by (simp add: set_to_object_def state_arg_of_def)
    ultimately show ?thesis by force
  qed
  then obtain rows r where eq: "set_to_object h d self ob =
      set_state h (d\<lparr>WorkflowObjectRelation_objects := rows\<rparr>) ob (StateInstance s)"
    and r: "filter (wor_of ob) rows = [r]" "wor_workflow r = self"
    by blast
  define d1 where "d1 = d\<lparr>WorkflowObjectRelation_objects := rows\<rparr>"
  have o1: "get_workflow_for_object d1 ob = Inr (Some self)"
    using get_workflow_for_object_single [of ob d1 r] r by (simp add: d1_def)
  then have w1: "get_workflow d1 ob = Inr (Some self)"
    by (rule get_workflow_own)
  have s1: "get_state d1 ob = Inr s0"
    using get_state_cong [of d1 d ob] s0 by (simp add: d1_def)
  from set_state_total [OF s1 w1, of h s]
  have t: "fst (set_state h d1 ob (StateInstance s)) = Inr ()"
    and p: "set_state_post d1 ob s0 (Some self) s (snd (set_state h d1 ob (StateInstance s)))"
    by simp_all
  from p have "WorkflowObjectRelation_objects (snd (set_state h d1 ob (StateInstance s))) =
      WorkflowObjectRelation_objects d1"
    by (simp add: set_state_post_def)
  from get_workflow_for_object_cong [OF this] o1
  have o: "get_workflow_for_object (snd (set_state h d1 ob (StateInstance s))) ob = Inr (Some self)"
    by simp
  show ?thesis
    unfolding eq d1_def [symmetric]
    using t p o by (simp add: set_state_post_def d1_def)
qed

text \<open>
  If the object has the workflow already, nothing happens.
\<close>

lemma set_to_object_same_workflow:
  assumes "get_workflow_for_object d ob = Inr (Some w0)" and "w_id w0 = w_id self"
  shows "set_to_object h d self ob = (Inr (), d)"
proof -
  from assms(1) obtain r where "objects_get (wor_of ob) (WorkflowObjectRelation_objects d) = Inr r"
    "wor_workflow r = w0"
    by (auto simp: get_workflow_for_object_def split: sum.splits if_splits)
  with assms(2) show ?thesis by (simp add: set_to_object_def)
qed

lemmas eval_defs' = set_workflow_def set_to_def set_to_object_def
  set_state_def resolve_state_def state_arg_of_def create_history_def send_def
  get_workflow_def get_workflow_for_object_def get_workflow_for_model_def get_state_def
  get_initial_state_def states_all_def objects_get_def wor_of_def sor_of_def

text \<open>
  C1. The claim is that \<open>set_workflow\<close> puts the object in the initial state of the new
  workflow, which is the first state of the workflow when no initial state is set
  (\<open>get_initial_state\<close>). \<open>Workflow.set_to_object\<close> passes the field \<open>initial_state\<close> to
  \<open>set_state\<close> instead. For the workflow plain, which has the state opened and no
  explicit initial state, and the object doc, which has no workflow and no state:
  \<open>get_initial_state\<close> is opened, but \<open>set_workflow\<close> gives doc the workflow, sends
  \<open>before_state_change\<close> with \<open>to_state = None\<close>, and raises; doc is left with the
  workflow and without a state.
\<close>

theorem set_workflow_unset_initial_state:
  "w_initial_state plain = None \<and>
   get_initial_state db_config plain = Some opened \<and>
   get_workflow db_config doc = Inr None \<and>
   set_workflow host_default db_config (Instance doc) plain =
     (Inl IntegrityError,
      db_config\<lparr>
        WorkflowObjectRelation_objects :=
          [\<lparr>wor_content_type = 1, wor_content_id = 2, wor_workflow = plain\<rparr>],
        signals_sent := [Before_state_change doc None None]\<rparr>) \<and>
   get_workflow (snd (set_workflow host_default db_config (Instance doc) plain)) doc = Inr (Some plain) \<and>
   get_state (snd (set_workflow host_default db_config (Instance doc) plain)) doc = Inr None"
proof -
  have a: "w_initial_state plain = None"
    by (simp add: plain_def)
  have b: "get_initial_state db_config plain = Some opened"
    by (simp add: get_initial_state_def states_all_def example_defs)
  have c: "get_workflow db_config doc = Inr None"
    by (simp add: eval_defs' example_defs)
  have e: "set_workflow host_default db_config (Instance doc) plain =
     (Inl IntegrityError,
      db_config\<lparr>
        WorkflowObjectRelation_objects :=
          [\<lparr>wor_content_type = 1, wor_content_id = 2, wor_workflow = plain\<rparr>],
        signals_sent := [Before_state_change doc None None]\<rparr>)"
    by (simp add: eval_defs' example_defs Let_def)
  have f: "get_workflow (db_config\<lparr>
        WorkflowObjectRelation_objects :=
          [\<lparr>wor_content_type = 1, wor_content_id = 2, wor_workflow = plain\<rparr>],
        signals_sent := [Before_state_change doc None None]\<rparr>) doc = Inr (Some plain)"
    "get_state (db_config\<lparr>
        WorkflowObjectRelation_objects :=
          [\<lparr>wor_content_type = 1, wor_content_id = 2, wor_workflow = plain\<rparr>],
        signals_sent := [Before_state_change doc None None]\<rparr>) doc = Inr None"
    by (simp_all add: eval_defs' example_defs)
  show ?thesis
    unfolding e using a b c f by simp
qed

end
